theory Spec2Isabelle
  imports Main "HOL-Library.Char_ord" "HOL-Library.List_Lexorder"
begin

section \<open>Strings of the host language\<close>

text \<open>
  A string is a list of code units; the model covers code units below 256, which is
  what \<^typ>\<open>char\<close> holds. The functions below are the host's string methods the
  program calls: \<^verbatim>\<open>startsWith\<close>, \<^verbatim>\<open>trim\<close>, \<^verbatim>\<open>split\<close>,
  \<^verbatim>\<open>join\<close>, \<^verbatim>\<open>replace\<close> with a string pattern (first occurrence only) and
  \<^verbatim>\<open>replace\<close> with the global pattern \<^verbatim>\<open>/\//g\<close> (every occurrence).
\<close>

definition startsWith :: "string \<Rightarrow> string \<Rightarrow> bool" where
  "startsWith s p = (take (length p) s = p)"

definition is_space :: "char \<Rightarrow> bool" where
  \<comment> \<open>White space and line terminators below code unit 256.\<close>
  "is_space c = ((of_char c :: nat) \<in> {9, 10, 11, 12, 13, 32, 160})"

definition trim :: "string \<Rightarrow> string" where
  "trim s = rev (dropWhile is_space (rev (dropWhile is_space s)))"

fun split_on :: "char \<Rightarrow> string \<Rightarrow> string list" where
  "split_on c [] = [[]]"
| "split_on c (x # xs) =
     (if x = c then [] # split_on c xs
      else (case split_on c xs of
              [] \<Rightarrow> [[x]]
            | h # t \<Rightarrow> (x # h) # t))"

definition newline :: char where
  "newline = CHR 0x0A"

definition lines_of :: "string \<Rightarrow> string list" where
  \<comment> \<open>\<^verbatim>\<open>raw.split("\n")\<close>\<close>
  "lines_of raw = split_on newline raw"

fun join_with :: "string \<Rightarrow> string list \<Rightarrow> string" where
  "join_with sep [] = []"
| "join_with sep [x] = x"
| "join_with sep (x # y # ys) = x @ sep @ join_with sep (y # ys)"

fun replace_first :: "string \<Rightarrow> string \<Rightarrow> string \<Rightarrow> string" where
  "replace_first pat rep [] = (if pat = [] then rep else [])"
| "replace_first pat rep (x # xs) =
     (if startsWith (x # xs) pat then rep @ drop (length pat) (x # xs)
      else x # replace_first pat rep xs)"

fun replace_all_slashes :: "string \<Rightarrow> string \<Rightarrow> string" where
  \<comment> \<open>\<^verbatim>\<open>s.replace(/\//g, rep)\<close>\<close>
  "replace_all_slashes rep [] = []"
| "replace_all_slashes rep (x # xs) =
     (if x = CHR ''/'' then rep @ replace_all_slashes rep xs
      else x # replace_all_slashes rep xs)"

fun show_nat :: "nat \<Rightarrow> string" where
  "show_nat n =
     (if n < 10 then [char_of (48 + n)]
      else show_nat (n div 10) @ [char_of (48 + n mod 10)])"

declare show_nat.simps [simp del]

definition truthy :: "string option \<Rightarrow> bool" where
  \<comment> \<open>A value of type \<^verbatim>\<open>string | null\<close> used as a condition: null and the empty
     string are false.\<close>
  "truthy v = (case v of None \<Rightarrow> False | Some s \<Rightarrow> s \<noteq> [])"

section \<open>The host's POSIX path join\<close>

text \<open>
  \<^verbatim>\<open>path.join\<close> concatenates its non-empty arguments with a slash and normalises the
  result: empty and \<^verbatim>\<open>.\<close> segments are dropped, a \<^verbatim>\<open>..\<close> segment removes the
  segment before it (or is kept at the front of a relative path), a trailing slash is
  kept, and an empty result is \<^verbatim>\<open>.\<close>.
\<close>

fun norm_segs :: "bool \<Rightarrow> string list \<Rightarrow> string list \<Rightarrow> string list" where
  "norm_segs allowAboveRoot res [] = res"
| "norm_segs allowAboveRoot res (s # ss) =
     (if s = [] \<or> s = ''.'' then norm_segs allowAboveRoot res ss
      else if s = ''..'' then
        (if res \<noteq> [] \<and> last res \<noteq> ''..'' then norm_segs allowAboveRoot (butlast res) ss
         else if allowAboveRoot then norm_segs allowAboveRoot (res @ [''..'']) ss
         else norm_segs allowAboveRoot res ss)
      else norm_segs allowAboveRoot (res @ [s]) ss)"

definition normalizeString :: "string \<Rightarrow> bool \<Rightarrow> string" where
  "normalizeString p allowAboveRoot =
     join_with ''/'' (norm_segs allowAboveRoot [] (split_on (CHR ''/'') p))"

definition path_normalize :: "string \<Rightarrow> string" where
  "path_normalize p =
     (if p = [] then ''.''
      else
        let isAbsolute = (hd p = CHR ''/'');
            trailingSeparator = (last p = CHR ''/'');
            q = normalizeString p (\<not> isAbsolute)
        in if q = [] then (if isAbsolute then ''/'' else if trailingSeparator then ''./'' else ''.'')
           else
             let q' = (if trailingSeparator then q @ ''/'' else q)
             in if isAbsolute then ''/'' @ q' else q')"

definition path_join :: "string list \<Rightarrow> string" where
  "path_join args =
     (let parts = filter (\<lambda>a. a \<noteq> []) args
      in if parts = [] then ''.'' else path_normalize (join_with ''/'' parts))"

section \<open>Workspace path policy\<close>

definition computeWorktreePath :: "string \<Rightarrow> string \<Rightarrow> string \<Rightarrow> string" where
  "computeWorktreePath parentDir repoName branch =
     (let safeBranch = replace_all_slashes ''-'' branch
      in path_join [parentDir, repoName @ ''-'' @ safeBranch])"

section \<open>Command-line arguments\<close>

record CliArgs =
  pathFile :: "string option"
  "help" :: bool
  version :: bool
  config :: bool
  cleanup :: bool

datatype fatal = Exit nat string

definition initialArgs :: CliArgs where
  "initialArgs = \<lparr>pathFile = None, help = False, version = False, config = False, cleanup = False\<rparr>"

text \<open>
  The loop of \<^verbatim>\<open>parseArgs\<close> over the arguments still to read. The branch for
  \<^verbatim>\<open>--path-file\<close> is taken only when a further argument exists, and then consumes
  it. \<^verbatim>\<open>process.exit(1)\<close> after the message is the \<open>Inl\<close> result.
\<close>

fun parseLoop :: "string list \<Rightarrow> CliArgs \<Rightarrow> fatal + CliArgs" where
  "parseLoop [] result = Inr result"
| "parseLoop (a # rest) result =
     (if a = ''--help'' \<or> a = ''-h'' then parseLoop rest (result\<lparr>help := True\<rparr>)
      else if a = ''--version'' \<or> a = ''-v'' \<or> a = ''-V'' then
        parseLoop rest (result\<lparr>version := True\<rparr>)
      else if a = ''--path-file'' \<and> rest \<noteq> [] then
        parseLoop (tl rest) (result\<lparr>pathFile := Some (hd rest)\<rparr>)
      else if a = ''config'' then parseLoop rest (result\<lparr>config := True\<rparr>)
      else if a = ''cleanup'' \<or> a = ''clean'' then parseLoop rest (result\<lparr>cleanup := True\<rparr>)
      else if \<not> startsWith a ''-'' then
        Inl (Exit 1 (''Unknown command: '' @ a @ [newline] @ ''Run 'slopcannon --help' for usage.''))
      else parseLoop rest result)"

definition parseArgs :: "string list \<Rightarrow> fatal + CliArgs" where
  \<comment> \<open>The argument is \<^verbatim>\<open>process.argv.slice(2)\<close>.\<close>
  "parseArgs args = parseLoop args initialArgs"

record DepCheckResult =
  git :: "string option"
  claude :: "string option"
  gh :: "string option"
  bun :: "string option"

datatype outcome =
    PrintedVersion
  | PrintedHelp
  | RanConfig
  | RanCleanup
  | Failed fatal
  | NoWorktree
  | WrotePathFile string string
  | LaunchedAssistant string

text \<open>
  The decisions of \<^verbatim>\<open>main\<close> after the arguments are parsed, as a function of the
  parsed arguments, the dependency check and what the interactive dialogue returned
  (the path of the new worktree, or null).
\<close>

definition main_dispatch :: "CliArgs \<Rightarrow> DepCheckResult \<Rightarrow> string option \<Rightarrow> outcome" where
  "main_dispatch args deps worktreePath =
     (if version args then PrintedVersion
      else if help args then PrintedHelp
      else if config args then RanConfig
      else if cleanup args then
        (if \<not> truthy (git deps) then Failed (Exit 1 ''Error: git is not installed.'')
         else RanCleanup)
      else if \<not> truthy (git deps) then Failed (Exit 1 ''Error: git is not installed.'')
      else if \<not> truthy (claude deps) then
        Failed (Exit 1 (''Error: claude CLI is not installed.'' @ [newline] @
                        ''Install: https://docs.anthropic.com/en/docs/claude-code''))
      else if \<not> truthy worktreePath then NoWorktree
      else if truthy (pathFile args) then WrotePathFile (the (pathFile args)) (the worktreePath)
      else LaunchedAssistant (the worktreePath))"

definition main :: "string list \<Rightarrow> DepCheckResult \<Rightarrow> string option \<Rightarrow> outcome" where
  "main argv deps worktreePath =
     (case parseArgs argv of
        Inl e \<Rightarrow> Failed e
      | Inr args \<Rightarrow> main_dispatch args deps worktreePath)"

section \<open>Command runner\<close>

text \<open>
  A child process is run synchronously and, once started, yields a result record. The
  world the processes act on is an explicit state \<open>'w\<close>: \<open>spawnSync\<close> takes the
  command line, the working directory (\<open>None\<close> for the directory of the calling
  process) and the world, and returns the result and the world after the command. The
  case of a child that cannot be started is modelled where a function's contract is
  about raising, in the section on branch name validation.
\<close>

record proc_result =
  exitCode :: nat
  stdout :: string
  stderr :: string

type_synonym 'w spawn = "string list \<Rightarrow> string option \<Rightarrow> 'w \<Rightarrow> proc_result \<times> 'w"

datatype js_error = Error string

definition exec :: "'w spawn \<Rightarrow> string list \<Rightarrow> string option \<Rightarrow> 'w \<Rightarrow> (js_error + string) \<times> 'w" where
  "exec spawnSync args cwd w =
     (let (result, w') = spawnSync (''git'' # args) cwd w
      in if exitCode result \<noteq> 0 then
           (let err = trim (stderr result)
            in (Inl (Error (if err \<noteq> [] then err
                            else ''git '' @ join_with '' '' args @ '' failed with exit code '' @
                                 show_nat (exitCode result))), w'))
         else (Inr (trim (stdout result)), w'))"

section \<open>Repository inspector\<close>

definition detectDefaultBranch :: "'w spawn \<Rightarrow> string \<Rightarrow> 'w \<Rightarrow> (js_error + string) \<times> 'w" where
  "detectDefaultBranch spawnSync root w =
     (case exec spawnSync [''symbolic-ref'', ''refs/remotes/origin/HEAD''] (Some root) w of
        (Inr r, w1) \<Rightarrow> (Inr (replace_first ''refs/remotes/origin/'' [] r), w1)
      | (Inl _, w1) \<Rightarrow>
     (case exec spawnSync [''rev-parse'', ''--verify'', ''refs/heads/main''] (Some root) w1 of
        (Inr _, w2) \<Rightarrow> (Inr ''main'', w2)
      | (Inl _, w2) \<Rightarrow>
     (case exec spawnSync [''rev-parse'', ''--verify'', ''refs/heads/master''] (Some root) w2 of
        (Inr _, w3) \<Rightarrow> (Inr ''master'', w3)
      | (Inl _, w3) \<Rightarrow>
     (case exec spawnSync [''branch'', ''--show-current''] (Some root) w3 of
        (Inl e, w4) \<Rightarrow> (Inl e, w4)
      | (Inr cur, w4) \<Rightarrow> (Inr (if cur \<noteq> [] then cur else ''main''), w4)))))"

record BranchEntry =
  name :: string
  ref :: string

text \<open>
  The first pass of \<^verbatim>\<open>listBranches\<close>: the set of local branch names, kept as a
  list without repetitions.
\<close>

fun collectLocal :: "string list \<Rightarrow> string list \<Rightarrow> string list" where
  "collectLocal [] localBranches = localBranches"
| "collectLocal (line # ls) localBranches =
     (let nm = trim line
      in if nm = [] \<or> startsWith nm ''origin/'' then collectLocal ls localBranches
         else collectLocal ls
                (if nm \<in> set localBranches then localBranches else localBranches @ [nm]))"

text \<open>
  The second pass: the map from display name to entry, kept as an association list in
  insertion order (the order in which the map's values are read back).
\<close>

fun buildEntries ::
  "string list \<Rightarrow> string list \<Rightarrow> (string \<times> BranchEntry) list \<Rightarrow> (string \<times> BranchEntry) list" where
  "buildEntries localBranches [] entries = entries"
| "buildEntries localBranches (line # ls) entries =
     (let nm = trim line
      in if nm = [] then buildEntries localBranches ls entries
         else
           let isRemote = startsWith nm ''origin/'';
               short = (if isRemote then replace_first ''origin/'' [] nm else nm)
           in if short = ''HEAD'' then buildEntries localBranches ls entries
              else if short \<in> fst ` set entries then buildEntries localBranches ls entries
              else buildEntries localBranches ls
                     (entries @ [(short, \<lparr>name = short,
                                           ref = (if short \<in> set localBranches then short else nm)\<rparr>)]))"

text \<open>
  The comparator handed to the host's sort. \<open>localeCompare\<close> is the host's
  locale-sensitive string comparison, a parameter of the model.
\<close>

definition branchCompare ::
  "(string \<Rightarrow> string \<Rightarrow> int) \<Rightarrow> string \<Rightarrow> BranchEntry \<Rightarrow> BranchEntry \<Rightarrow> int" where
  "branchCompare localeCompare defaultBranch a b =
     (if name a = defaultBranch then - 1
      else if name b = defaultBranch then 1
      else localeCompare (name a) (name b))"

text \<open>
  The host's array sort is stable; with a comparator that is a total preorder its result
  is the one of a stable insertion sort.
\<close>

fun insert_by :: "('a \<Rightarrow> 'a \<Rightarrow> int) \<Rightarrow> 'a \<Rightarrow> 'a list \<Rightarrow> 'a list" where
  "insert_by cmp x [] = [x]"
| "insert_by cmp x (y # ys) = (if cmp x y \<le> 0 then x # y # ys else y # insert_by cmp x ys)"

definition sort_by :: "('a \<Rightarrow> 'a \<Rightarrow> int) \<Rightarrow> 'a list \<Rightarrow> 'a list" where
  "sort_by cmp xs = foldr (insert_by cmp) xs []"

definition listBranches ::
  "'w spawn \<Rightarrow> (string \<Rightarrow> string \<Rightarrow> int) \<Rightarrow> string \<Rightarrow> string \<Rightarrow> 'w \<Rightarrow>
   (js_error + BranchEntry list) \<times> 'w" where
  "listBranches spawnSync localeCompare root defaultBranch w =
     (case exec spawnSync [''branch'', ''-a'', ''--format=%(refname:short)''] (Some root) w of
        (Inl e, w') \<Rightarrow> (Inl e, w')
      | (Inr raw, w') \<Rightarrow>
          (let localBranches = collectLocal (lines_of raw) [];
               entries = buildEntries localBranches (lines_of raw) [];
               branches = map snd entries
           in (Inr (sort_by (branchCompare localeCompare defaultBranch) branches), w')))"

section \<open>Branch name validation\<close>

definition quote :: char where
  "quote = CHR 0x27"

text \<open>
  \<^verbatim>\<open>validateBranchName\<close> calls the host's process primitive directly, with no
  \<^verbatim>\<open>try\<close> around either call. The primitive itself throws when it cannot start the
  child (a working directory that does not exist, a NUL in an argument), so here it is
  modelled with that outcome: \<open>Inl\<close> is the error thrown, \<open>Inr\<close> the result record of
  a child that ran.
\<close>

type_synonym 'w throwing_spawn =
  "string list \<Rightarrow> string option \<Rightarrow> 'w \<Rightarrow> (js_error + proc_result) \<times> 'w"

definition validateBranchName ::
  "'w throwing_spawn \<Rightarrow> string \<Rightarrow> string \<Rightarrow> 'w \<Rightarrow> (js_error + string option) \<times> 'w" where
  "validateBranchName spawnSync nm root w =
     (case spawnSync [''git'', ''check-ref-format'', ''--branch'', nm] (Some root) w of
        (Inl e, w1) \<Rightarrow> (Inl e, w1)
      | (Inr fmtResult, w1) \<Rightarrow>
          if exitCode fmtResult \<noteq> 0 then (Inr (Some ''Invalid branch name''), w1)
          else
            (case spawnSync [''git'', ''rev-parse'', ''--verify'', ''refs/heads/'' @ nm]
                    (Some root) w1 of
               (Inl e, w2) \<Rightarrow> (Inl e, w2)
             | (Inr existsResult, w2) \<Rightarrow>
                 if exitCode existsResult = 0 then
                   (Inr (Some (''Branch '' @ [quote] @ nm @ [quote] @ '' already exists'')), w2)
                 else (Inr None, w2)))"

section \<open>Workspace enumerator\<close>

record WorktreeEntry =
  path :: string
  branch :: "string option"
  isMain :: bool

text \<open>
  The loop of \<^verbatim>\<open>listWorktrees\<close> over the lines of the listing. The record being
  read is a pair: its path, if a path line was seen, and its branch, where a missing
  branch and a null branch are both \<open>None\<close> (the entry pushed holds
  \<^verbatim>\<open>current.branch ?? null\<close>).
\<close>

fun parseLines ::
  "string list \<Rightarrow> WorktreeEntry list \<Rightarrow> string option \<times> string option \<Rightarrow>
   WorktreeEntry list \<times> (string option \<times> string option)" where
  "parseLines [] entries current = (entries, current)"
| "parseLines (line # ls) entries (cpath, cbranch) =
     (if startsWith line ''worktree '' then
        parseLines ls entries (Some (drop (length ''worktree '') line), cbranch)
      else if startsWith line ''branch refs/heads/'' then
        parseLines ls entries (cpath, Some (drop (length ''branch refs/heads/'') line))
      else if line = ''detached'' then parseLines ls entries (cpath, None)
      else if line = [] then
        (if truthy cpath then
           parseLines ls
             (entries @ [\<lparr>path = the cpath, branch = cbranch, isMain = (length entries = 0)\<rparr>])
             (None, None)
         else parseLines ls entries (None, None))
      else parseLines ls entries (cpath, cbranch))"

definition listWorktrees :: "'w spawn \<Rightarrow> string \<Rightarrow> 'w \<Rightarrow> (js_error + WorktreeEntry list) \<times> 'w" where
  "listWorktrees spawnSync root w =
     (case exec spawnSync [''worktree'', ''list'', ''--porcelain''] (Some root) w of
        (Inl e, w') \<Rightarrow> (Inl e, w')
      | (Inr raw, w') \<Rightarrow>
          (let (entries, (cpath, cbranch)) = parseLines (lines_of raw) [] (None, None)
           in (Inr (if truthy cpath then
                      entries @ [\<lparr>path = the cpath, branch = cbranch,
                                   isMain = (length entries = 0)\<rparr>]
                    else entries), w')))"

section \<open>Cleanup probes and mutations\<close>

definition isBranchMerged :: "'w spawn \<Rightarrow> string \<Rightarrow> string \<Rightarrow> string \<Rightarrow> 'w \<Rightarrow> bool \<times> 'w" where
  "isBranchMerged spawnSync root br into w =
     (case exec spawnSync [''branch'', ''--merged'', into] (Some root) w of
        (Inl _, w') \<Rightarrow> (False, w')
      | (Inr out, w') \<Rightarrow> (list_ex (\<lambda>l. trim l = br) (lines_of out), w'))"

definition isBranchDeletedOnRemote :: "'w spawn \<Rightarrow> string \<Rightarrow> string \<Rightarrow> 'w \<Rightarrow> bool \<times> 'w" where
  "isBranchDeletedOnRemote spawnSync root br w =
     (let (result, w') =
            spawnSync [''git'', ''rev-parse'', ''--verify'', ''refs/remotes/origin/'' @ br] (Some root) w
      in (exitCode result \<noteq> 0, w'))"

definition removeWorktree ::
  "'w spawn \<Rightarrow> string \<Rightarrow> string \<Rightarrow> bool \<Rightarrow> 'w \<Rightarrow> (js_error + unit) \<times> 'w" where
  "removeWorktree spawnSync root worktreePath force w =
     (let args = [''worktree'', ''remove'', worktreePath] @ (if force then [''--force''] else [])
      in case exec spawnSync args (Some root) w of
           (Inl e, w') \<Rightarrow> (Inl e, w')
         | (Inr _, w') \<Rightarrow> (Inr (), w'))"

definition deleteBranch ::
  "'w spawn \<Rightarrow> string \<Rightarrow> string \<Rightarrow> bool \<Rightarrow> 'w \<Rightarrow> (js_error + unit) \<times> 'w" where
  "deleteBranch spawnSync root br force w =
     (case exec spawnSync [''branch'', if force then ''-D'' else ''-d'', br] (Some root) w of
        (Inl e, w') \<Rightarrow> (Inl e, w')
      | (Inr _, w') \<Rightarrow> (Inr (), w'))"

section \<open>Cleanup safety classifier\<close>

record PrInfo =
  number :: int
  title :: string
  state :: string
  url :: string

record WorktreeCandidate =
  entry :: WorktreeEntry
  merged :: bool
  deletedOnRemote :: bool
  pr :: "PrInfo option"
  safeToClean :: bool

text \<open>
  \<open>parseJson\<close> is the host's JSON parser on the output of the review-request tool:
  \<open>None\<close> when it throws, otherwise the array of review requests.
\<close>

definition lookupPr ::
  "'w spawn \<Rightarrow> (string \<Rightarrow> PrInfo list option) \<Rightarrow> string \<Rightarrow> 'w \<Rightarrow> PrInfo option \<times> 'w" where
  "lookupPr spawnSync parseJson br w =
     (let (result, w') =
            spawnSync [''gh'', ''pr'', ''list'', ''--head'', br, ''--state'', ''all'', ''--json'',
                       ''number,title,state,url'', ''--limit'', ''1''] None w
      in if exitCode result \<noteq> 0 then (None, w')
         else (case parseJson (stdout result) of
                 None \<Rightarrow> (None, w')
               | Some prs \<Rightarrow> (if length prs = 0 then None else Some (hd prs), w')))"

text \<open>
  The callback of \<^verbatim>\<open>linked.map\<close> in \<^verbatim>\<open>runCleanup\<close>: one candidate from one
  linked worktree. \<open>hasGh\<close> is whether the review-request tool is installed.
\<close>

definition candidateOf ::
  "'w spawn \<Rightarrow> (string \<Rightarrow> PrInfo list option) \<Rightarrow> bool \<Rightarrow> string \<Rightarrow> string \<Rightarrow>
   WorktreeEntry \<Rightarrow> 'w \<Rightarrow> WorktreeCandidate \<times> 'w" where
  "candidateOf spawnSync parseJson hasGh root defaultBranch e w =
     (let (m, w1) = (if truthy (branch e)
                     then isBranchMerged spawnSync root (the (branch e)) defaultBranch w
                     else (False, w));
          (d, w2) = (if truthy (branch e)
                     then isBranchDeletedOnRemote spawnSync root (the (branch e)) w1
                     else (False, w1));
          (p, w3) = (if truthy (branch e) \<and> hasGh
                     then lookupPr spawnSync parseJson (the (branch e)) w2
                     else (None, w2));
          prMerged = (case p of None \<Rightarrow> False | Some i \<Rightarrow> state i = ''MERGED'');
          safe = (m \<or> (d \<and> \<not> truthy (branch e)) \<or> prMerged)
      in (\<lparr>entry = e, merged = m, deletedOnRemote = d, pr = p, safeToClean = safe\<rparr>, w3))"

fun candidatesOf ::
  "'w spawn \<Rightarrow> (string \<Rightarrow> PrInfo list option) \<Rightarrow> bool \<Rightarrow> string \<Rightarrow> string \<Rightarrow>
   WorktreeEntry list \<Rightarrow> 'w \<Rightarrow> WorktreeCandidate list \<times> 'w" where
  "candidatesOf spawnSync parseJson hasGh root defaultBranch [] w = ([], w)"
| "candidatesOf spawnSync parseJson hasGh root defaultBranch (e # es) w =
     (let (c, w1) = candidateOf spawnSync parseJson hasGh root defaultBranch e w;
          (cs, w2) = candidatesOf spawnSync parseJson hasGh root defaultBranch es w1
      in (c # cs, w2))"

section \<open>Reclaimer\<close>

text \<open>
  The loop of \<^verbatim>\<open>runCleanup\<close> over the confirmed selection, with its two
  accumulators. The identifier of a failed item is \<^verbatim>\<open>c.entry.branch ?? c.entry.path\<close>.
\<close>

fun reclaimLoop ::
  "'w spawn \<Rightarrow> string \<Rightarrow> WorktreeCandidate list \<Rightarrow> nat \<Rightarrow> string list \<Rightarrow> 'w \<Rightarrow>
   nat \<times> string list \<times> 'w" where
  "reclaimLoop spawnSync root [] removed errors w = (removed, errors, w)"
| "reclaimLoop spawnSync root (c # cs) removed errors w =
     (case removeWorktree spawnSync root (path (entry c)) True w of
        (Inl (Error msg), w1) \<Rightarrow>
          reclaimLoop spawnSync root cs removed
            (errors @ [(case branch (entry c) of Some b \<Rightarrow> b | None \<Rightarrow> path (entry c)) @
                       '': '' @ msg]) w1
      | (Inr _, w1) \<Rightarrow>
          (let w2 = (if truthy (branch (entry c))
                     then snd (deleteBranch spawnSync root (the (branch (entry c))) True w1)
                     else w1)
           in reclaimLoop spawnSync root cs (removed + 1) errors w2))"

definition reclaim ::
  "'w spawn \<Rightarrow> string \<Rightarrow> WorktreeCandidate list \<Rightarrow> 'w \<Rightarrow> nat \<times> string list \<times> 'w" where
  "reclaim spawnSync root toRemove w = reclaimLoop spawnSync root toRemove 0 [] w"

section \<open>Notions used in the statements\<close>

definition plain_segment :: "string \<Rightarrow> bool" where
  \<comment> \<open>A path segment that normalisation leaves alone.\<close>
  "plain_segment s = (s \<noteq> [] \<and> s \<noteq> ''.'' \<and> s \<noteq> ''..'' \<and> CHR ''/'' \<notin> set s)"

definition absolute_path :: "string list \<Rightarrow> string" where
  \<comment> \<open>The absolute path with the given segments.\<close>
  "absolute_path segs = concat (map (\<lambda>s. CHR ''/'' # s) segs)"

text \<open>
  An argument that starts with a hyphen and is none of the options the parser knows.
\<close>

definition unrecognized_option :: "string \<Rightarrow> bool" where
  "unrecognized_option a =
     (startsWith a ''-'' \<and> a \<noteq> ''--help'' \<and> a \<noteq> ''-h'' \<and> a \<noteq> ''--version'' \<and>
      a \<noteq> ''-v'' \<and> a \<noteq> ''-V'' \<and> a \<noteq> ''--path-file'')"

text \<open>
  A world that answers each command line from a fixed table and never changes; a
  command line the table does not list fails with exit code 128.
\<close>

definition canned :: "(string list \<times> proc_result) list \<Rightarrow> 'w spawn" where
  "canned tbl cmd cwd w =
     (case map_of tbl cmd of
        Some r \<Rightarrow> (r, w)
      | None \<Rightarrow> (\<lparr>exitCode = 128, stdout = [], stderr = ''fatal: not available''\<rparr>, w))"

definition ok :: "string \<Rightarrow> proc_result" where
  "ok out = \<lparr>exitCode = 0, stdout = out, stderr = []\<rparr>"

definition prMerged :: "PrInfo option \<Rightarrow> bool" where
  "prMerged p = (case p of None \<Rightarrow> False | Some i \<Rightarrow> state i = ''MERGED'')"

text \<open>
  Two concrete runs of the classifier on the linked worktree of branch
  \<^verbatim>\<open>feat/x\<close>: the branch is not among the merged branches and its remote
  tracking reference exists. In the first the review-request tool is not installed; in
  the second it reports one merged review request.
\<close>

definition sample_entry :: WorktreeEntry where
  "sample_entry = \<lparr>path = ''/work/app-feat-x'', branch = Some ''feat/x'', isMain = False\<rparr>"

definition sample_pr :: PrInfo where
  "sample_pr = \<lparr>number = 7, title = ''Add x'', state = ''MERGED'', url = ''https://example.org/pr/7''\<rparr>"

definition sample_world :: "(string list \<times> proc_result) list" where
  "sample_world =
     [([''git'', ''branch'', ''--merged'', ''main''], ok (''* main'' @ [newline] @ ''  done'')),
      ([''git'', ''rev-parse'', ''--verify'', ''refs/remotes/origin/feat/x''], ok ''4b825dc''),
      ([''gh'', ''pr'', ''list'', ''--head'', ''feat/x'', ''--state'', ''all'', ''--json'',
        ''number,title,state,url'', ''--limit'', ''1''], ok ''[...]'')]"

definition sample_json :: "string \<Rightarrow> PrInfo list option" where
  "sample_json s = (if s = ''[...]'' then Some [sample_pr] else None)"

definition sample_detached :: WorktreeEntry where
  "sample_detached = \<lparr>path = ''/work/app-tmp'', branch = None, isMain = False\<rparr>"

text \<open>
  The two read-only probes of \<^verbatim>\<open>validateBranchName\<close>, as the commands it runs.
\<close>

definition formatProbe ::
  "'w throwing_spawn \<Rightarrow> string \<Rightarrow> string \<Rightarrow> 'w \<Rightarrow> (js_error + proc_result) \<times> 'w" where
  "formatProbe sp nm root w = sp [''git'', ''check-ref-format'', ''--branch'', nm] (Some root) w"

definition existsProbe ::
  "'w throwing_spawn \<Rightarrow> string \<Rightarrow> string \<Rightarrow> 'w \<Rightarrow> (js_error + proc_result) \<times> 'w" where
  "existsProbe sp nm root w =
     sp [''git'', ''rev-parse'', ''--verify'', ''refs/heads/'' @ nm] (Some root) w"

text \<open>
  A process primitive that never throws, from a runner that always yields a result; and
  a host over a fixed table of answers that throws as the real primitive does: when an
  argument holds a NUL, and when the working directory is not one of the directories
  that exist.
\<close>

definition returning :: "'w spawn \<Rightarrow> 'w throwing_spawn" where
  "returning sp cmd cwd w = (Inr (fst (sp cmd cwd w)), snd (sp cmd cwd w))"

definition host :: "string list \<Rightarrow> (string list \<times> proc_result) list \<Rightarrow> 'w throwing_spawn" where
  "host dirs tbl cmd cwd w =
     (if list_ex (\<lambda>a. CHR 0x00 \<in> set a) cmd then
        (Inl (Error ''spawnSync: argument contains a null byte''), w)
      else if (case cwd of None \<Rightarrow> False | Some d \<Rightarrow> d \<notin> set dirs) then
        (Inl (Error ''spawnSync: ENOENT: no such file or directory''), w)
      else (Inr (fst (canned tbl cmd cwd w)), w))"

definition names_world :: "(string list \<times> proc_result) list" where
  "names_world =
     [([''git'', ''check-ref-format'', ''--branch'', ''bad name''],
         \<lparr>exitCode = 1, stdout = [], stderr = ''fatal: not a valid branch name''\<rparr>),
      ([''git'', ''check-ref-format'', ''--branch'', ''main''], ok ''main''),
      ([''git'', ''rev-parse'', ''--verify'', ''refs/heads/main''], ok ''4b825dc''),
      ([''git'', ''check-ref-format'', ''--branch'', ''feat/new''], ok ''feat/new'')]"

definition old_git_world :: "(string list \<times> proc_result) list" where
  "old_git_world =
     [([''git'', ''symbolic-ref'', ''refs/remotes/origin/HEAD''],
         \<lparr>exitCode = 128, stdout = [], stderr = ''fatal: ref refs/remotes/origin/HEAD is not a symbolic ref''\<rparr>),
      ([''git'', ''rev-parse'', ''--verify'', ''refs/heads/main''],
         \<lparr>exitCode = 128, stdout = [], stderr = ''fatal: Needed a single revision''\<rparr>),
      ([''git'', ''rev-parse'', ''--verify'', ''refs/heads/master''],
         \<lparr>exitCode = 128, stdout = [], stderr = ''fatal: Needed a single revision''\<rparr>),
      ([''git'', ''branch'', ''--show-current''],
         \<lparr>exitCode = 129, stdout = [], stderr = ''error: unknown option show-current''\<rparr>)]"

text \<open>
  The primary flags of a listing of \<open>n\<close> entries in which exactly the first entry is
  primary.
\<close>

definition primary_first :: "nat \<Rightarrow> bool list" where
  "primary_first n = (if n = 0 then [] else True # replicate (n - 1) False)"

text \<open>
  A porcelain listing has a path line, and every path line carries a non-empty path.
\<close>

definition porcelain_listing :: "string list \<Rightarrow> bool" where
  "porcelain_listing ls =
     (list_ex (\<lambda>l. startsWith l ''worktree '') ls \<and>
      list_all (\<lambda>l. \<not> startsWith l ''worktree '' \<or> length ''worktree '' < length l) ls)"

text \<open>
  A listing of three worktrees as the version-control tool prints it: the primary one,
  one on a branch and one detached.
\<close>

definition sample_listing :: string where
  "sample_listing =
     ''worktree /work/app'' @ [newline] @
     ''HEAD 4b825dc642cb6eb9a060e54bf8d69288fbee4904'' @ [newline] @
     ''branch refs/heads/main'' @ [newline] @
     [newline] @
     ''worktree /work/app-feat-x'' @ [newline] @
     ''HEAD 89e6c98d92887913cadf06b2adb97f26cde4849b'' @ [newline] @
     ''branch refs/heads/feat/x'' @ [newline] @
     [newline] @
     ''worktree /work/app-tmp'' @ [newline] @
     ''HEAD 89e6c98d92887913cadf06b2adb97f26cde4849b'' @ [newline] @
     ''detached'' @ [newline] @
     [newline]"

definition listing_world :: "(string list \<times> proc_result) list" where
  "listing_world = [([''git'', ''worktree'', ''list'', ''--porcelain''], ok sample_listing)]"

text \<open>
  A line of the branch listing that names a local branch: its trimmed text is not empty
  and does not start with the remote prefix.
\<close>

definition local_line :: "string \<Rightarrow> bool" where
  "local_line l = (trim l \<noteq> [] \<and> \<not> startsWith (trim l) ''origin/'')"

text \<open>
  The order a comparator induces, and what makes a comparator consistent: any two
  strings are comparable and the order is transitive.
\<close>

definition cmp_le :: "('a \<Rightarrow> 'a \<Rightarrow> int) \<Rightarrow> 'a \<Rightarrow> 'a \<Rightarrow> bool" where
  "cmp_le cmp a b = (cmp a b \<le> 0)"

definition consistent :: "('a \<Rightarrow> 'a \<Rightarrow> int) \<Rightarrow> bool" where
  "consistent cmp =
     ((\<forall>a b. cmp_le cmp a b \<or> cmp_le cmp b a) \<and>
      (\<forall>a b c. cmp_le cmp a b \<and> cmp_le cmp b c \<longrightarrow> cmp_le cmp a c))"

text \<open>
  The host's locale-sensitive comparison on strings of ASCII letters, as every locale
  of the host's collation library orders them: alphabetically without regard to case
  first, and where two strings differ in case only, lower case before upper case at the
  first difference.
\<close>

definition lower :: "char \<Rightarrow> char" where
  "lower c = (if CHR ''A'' \<le> c \<and> c \<le> CHR ''Z'' then char_of (of_char c + (32::nat)) else c)"

definition letterCollate :: "string \<Rightarrow> string \<Rightarrow> int" where
  "letterCollate a b =
     (if map lower a < map lower b then - 1
      else if map lower b < map lower a then 1
      else if a = b then 0
      else if b < a then - 1
      else 1)"

text \<open>
  A branch listing as the version-control tool prints it: three local branches, the
  remote's symbolic head, and two remote branches, one of which is also local.
\<close>

definition branches_world :: "(string list \<times> proc_result) list" where
  "branches_world =
     [([''git'', ''branch'', ''-a'', ''--format=%(refname:short)''],
       ok (''Beta'' @ [newline] @ ''alpha'' @ [newline] @ ''main'' @ [newline] @
           ''origin/HEAD'' @ [newline] @ ''origin/main'' @ [newline] @ ''origin/zeta''))]"

definition branches_raw :: string where
  "branches_raw =
     ''Beta'' @ [newline] @ ''alpha'' @ [newline] @ ''main'' @ [newline] @
     ''origin/HEAD'' @ [newline] @ ''origin/main'' @ [newline] @ ''origin/zeta''"

definition entries_ok :: "string list \<Rightarrow> (string \<times> BranchEntry) list \<Rightarrow> bool" where
  "entries_ok locals es =
     (distinct (map fst es) \<and>
      (\<forall>p \<in> set es. name (snd p) = fst p \<and> (fst p \<in> set locals \<longrightarrow> ref (snd p) = fst p)))"

text \<open>
  A command runner that also records every command line it runs, with its result, in
  the order of the calls.
\<close>

definition traced :: "'w spawn \<Rightarrow> ('w \<times> (string list \<times> proc_result) list) spawn" where
  "traced sp cmd cwd wl =
     (let (r, w') = sp cmd cwd (fst wl) in (r, (w', snd wl @ [(cmd, r)])))"

text \<open>
  The command that removes the worktree at a path, the recorded calls that are such
  removals, the message of the error the command runner throws for a failed command,
  and the line reported for a candidate whose removal failed.
\<close>

definition removal_cmd :: "string \<Rightarrow> string list" where
  "removal_cmd p = [''git'', ''worktree'', ''remove'', p, ''--force'']"

definition is_removal :: "string list \<times> proc_result \<Rightarrow> bool" where
  "is_removal e = (take 3 (fst e) = [''git'', ''worktree'', ''remove''])"

definition exec_message :: "string list \<Rightarrow> proc_result \<Rightarrow> string" where
  "exec_message args r =
     (if trim (stderr r) \<noteq> [] then trim (stderr r)
      else ''git '' @ join_with '' '' args @ '' failed with exit code '' @ show_nat (exitCode r))"

definition item_id :: "WorktreeCandidate \<Rightarrow> string" where
  "item_id c = (case branch (entry c) of Some b \<Rightarrow> b | None \<Rightarrow> path (entry c))"

definition failure_line :: "WorktreeCandidate \<times> (string list \<times> proc_result) \<Rightarrow> string" where
  "failure_line q = item_id (fst q) @ '': '' @ exec_message (tl (fst (snd q))) (snd (snd q))"

definition removal_failed :: "WorktreeCandidate \<times> (string list \<times> proc_result) \<Rightarrow> bool" where
  "removal_failed q = (exitCode (snd (snd q)) \<noteq> 0)"

definition removal_succeeded :: "string list \<times> proc_result \<Rightarrow> bool" where
  "removal_succeeded e = (is_removal e \<and> exitCode (snd e) = 0)"

text \<open>
  A confirmed batch of three candidates and a world for it: the first worktree is
  removed but its branch cannot be deleted, the removal of the second fails, and the
  third, detached, is removed.
\<close>

definition batch :: "WorktreeCandidate list" where
  "batch =
     [\<lparr>entry = \<lparr>path = ''/work/app-feat-a'', branch = Some ''feat/a'', isMain = False\<rparr>,
       merged = True, deletedOnRemote = False, pr = None, safeToClean = True\<rparr>,
      \<lparr>entry = \<lparr>path = ''/work/app-feat-b'', branch = Some ''feat/b'', isMain = False\<rparr>,
       merged = False, deletedOnRemote = False, pr = None, safeToClean = False\<rparr>,
      \<lparr>entry = \<lparr>path = ''/work/app-tmp'', branch = None, isMain = False\<rparr>,
       merged = False, deletedOnRemote = False, pr = None, safeToClean = False\<rparr>]"

definition batch_world :: "(string list \<times> proc_result) list" where
  "batch_world =
     [(removal_cmd ''/work/app-feat-a'', ok []),
      ([''git'', ''branch'', ''-D'', ''feat/a''],
         \<lparr>exitCode = 1, stdout = [], stderr = ''error: branch feat/a not found''\<rparr>),
      (removal_cmd ''/work/app-feat-b'',
         \<lparr>exitCode = 128, stdout = [], stderr = ''fatal: cannot remove a locked working tree''\<rparr>),
      (removal_cmd ''/work/app-tmp'', ok [])]"

definition batch_ok ::
  "WorktreeCandidate list \<Rightarrow> nat \<Rightarrow> string list \<Rightarrow> (string list \<times> proc_result) list \<Rightarrow>
   nat \<times> string list \<Rightarrow> bool" where
  "batch_ok cs n es new res =
     (map fst (filter is_removal new) = map (\<lambda>c. removal_cmd (path (entry c))) cs \<and>
      fst res = n + length (filter removal_succeeded new) \<and>
      snd res = es @ map failure_line (filter removal_failed (zip cs (filter is_removal new))) \<and>
      fst res + length (snd res) = n + length es + length cs)"

section \<open>Workspace path policy: properties\<close>

lemma replace_all_slashes_map:
  "replace_all_slashes [c] s = map (\<lambda>x. if x = CHR ''/'' then c else x) s"
  by (induction s) auto

lemma split_on_no_sep: "c \<notin> set s \<Longrightarrow> split_on c s = [s]"
  by (induction s) auto

lemma split_on_append_sep:
  "c \<notin> set s \<Longrightarrow> split_on c (s @ c # r) = s # split_on c r"
  by (induction s) auto

lemma split_on_abs:
  "\<forall>s \<in> set segs. c \<notin> set s \<Longrightarrow> segs \<noteq> [] \<Longrightarrow>
   split_on c (concat (map (\<lambda>s. c # s) segs)) = [] # segs"
proof (induction segs)
  case Nil
  then show ?case by simp
next
  case (Cons s segs)
  then show ?case
    by (cases segs) (auto simp: split_on_no_sep split_on_append_sep)
qed

lemma norm_segs_plain:
  "\<forall>s \<in> set ss. plain_segment s \<Longrightarrow> norm_segs a res ss = res @ ss"
  by (induction ss arbitrary: res) (auto simp: plain_segment_def)

lemma join_with_slash:
  "xs \<noteq> [] \<Longrightarrow> CHR ''/'' # join_with ''/'' xs = absolute_path xs"
  unfolding absolute_path_def
  by (induction "''/''" xs rule: join_with.induct) auto

lemma path_normalize_absolute:
  assumes "segs \<noteq> []" and "\<forall>s \<in> set segs. plain_segment s"
  shows "path_normalize (absolute_path segs) = absolute_path segs"
proof -
  have nosep: "\<forall>s \<in> set segs. CHR ''/'' \<notin> set s"
    using assms(2) by (simp add: plain_segment_def)
  have sp: "split_on (CHR ''/'') (absolute_path segs) = [] # segs"
    unfolding absolute_path_def using split_on_abs[OF nosep assms(1)] .
  have ns: "norm_segs False [] segs = segs"
    using norm_segs_plain[OF assms(2), of False "[]"] by simp
  have q: "normalizeString (absolute_path segs) False = join_with ''/'' segs"
    by (simp add: normalizeString_def sp ns)
  have ne: "absolute_path segs \<noteq> []"
    using assms(1) by (cases segs) (auto simp: absolute_path_def)
  have hd: "hd (absolute_path segs) = CHR ''/''"
    using assms(1) by (cases segs) (auto simp: absolute_path_def)
  have lastseg: "last segs \<noteq> []"
    using assms by (auto simp: plain_segment_def)
  have "last (absolute_path segs) = last (last segs)"
    using assms(1) lastseg
    by (induction segs) (auto simp: absolute_path_def)
  moreover have "last (last segs) \<in> set (last segs)"
    using lastseg by simp
  moreover have "CHR ''/'' \<notin> set (last segs)"
    using nosep assms(1) by simp
  ultimately have lst: "last (absolute_path segs) \<noteq> CHR ''/''"
    by metis
  have jne: "join_with ''/'' segs \<noteq> []"
  proof (cases segs)
    case Nil
    then show ?thesis using assms(1) by simp
  next
    case (Cons s ss)
    then have "s \<noteq> []" using assms(2) by (simp add: plain_segment_def)
    then show ?thesis using Cons by (cases ss) auto
  qed
  show ?thesis
    using ne hd lst jne join_with_slash[OF assms(1)]
    by (simp add: path_normalize_def q Let_def)
qed

text \<open>
  Claim C8, as amended. \<^verbatim>\<open>computeWorktreePath\<close> is a function of its three
  arguments alone; it replaces every slash of the branch name by a hyphen and hands the
  parent directory and \<^verbatim>\<open>{repoName}-{sanitizedBranch}\<close> to the host's path join,
  which normalises. For \<^verbatim>\<open>/work\<close>, \<^verbatim>\<open>app\<close>, \<^verbatim>\<open>feat/login\<close> the result is
  \<^verbatim>\<open>/work/app-feat-login\<close>. Whenever the parent directory is an absolute path of
  one or more plain segments and the repository name has no slash, the result is
  literally \<^verbatim>\<open>{parentDir}/{repoName}-{sanitizedBranch}\<close>.
\<close>

theorem computeWorktreePath_join:
  "computeWorktreePath p r b =
     path_join [p, r @ ''-'' @ map (\<lambda>x. if x = CHR ''/'' then CHR ''-'' else x) b]
   \<and> computeWorktreePath ''/work'' ''app'' ''feat/login'' = ''/work/app-feat-login''
   \<and> (segs \<noteq> [] \<and> (\<forall>s \<in> set segs. plain_segment s) \<and> CHR ''/'' \<notin> set r \<longrightarrow>
        computeWorktreePath (absolute_path segs) r b =
          absolute_path segs @ ''/'' @ r @ ''-'' @
            map (\<lambda>x. if x = CHR ''/'' then CHR ''-'' else x) b)"
proof (intro conjI impI)
  show "computeWorktreePath p r b =
     path_join [p, r @ ''-'' @ map (\<lambda>x. if x = CHR ''/'' then CHR ''-'' else x) b]"
    by (simp add: computeWorktreePath_def replace_all_slashes_map)
next
  show "computeWorktreePath ''/work'' ''app'' ''feat/login'' = ''/work/app-feat-login''"
    by (simp add: computeWorktreePath_def path_join_def path_normalize_def
        normalizeString_def)
next
  let ?san = "map (\<lambda>x. if x = CHR ''/'' then CHR ''-'' else x) b"
  let ?leaf = "r @ ''-'' @ ?san"
  assume h: "segs \<noteq> [] \<and> (\<forall>s \<in> set segs. plain_segment s) \<and> CHR ''/'' \<notin> set r"
  have leaf: "plain_segment ?leaf"
  proof -
    have "CHR ''-'' \<in> set ?leaf" by simp
    moreover have "CHR ''-'' \<notin> set ''.''" "CHR ''-'' \<notin> set ''..''" by simp_all
    ultimately have "?leaf \<noteq> ''.''" "?leaf \<noteq> ''..''" by metis+
    moreover have "CHR ''/'' \<notin> set ?leaf" using h by auto
    ultimately show ?thesis by (simp add: plain_segment_def)
  qed
  have all: "\<forall>s \<in> set (segs @ [?leaf]). plain_segment s"
    using h leaf by auto
  have ne: "absolute_path segs \<noteq> []"
    using h by (cases segs) (auto simp: absolute_path_def)
  have "computeWorktreePath (absolute_path segs) r b =
          path_normalize (absolute_path segs @ ''/'' @ ?leaf)"
    using ne by (simp add: computeWorktreePath_def replace_all_slashes_map path_join_def)
  also have "absolute_path segs @ ''/'' @ ?leaf = absolute_path (segs @ [?leaf])"
    by (simp add: absolute_path_def)
  also have "path_normalize \<dots> = \<dots>"
    using path_normalize_absolute[OF _ all] by simp
  also have "\<dots> = absolute_path segs @ ''/'' @ ?leaf"
    by (simp add: absolute_path_def)
  finally show "computeWorktreePath (absolute_path segs) r b = absolute_path segs @ ''/'' @ ?leaf" .
qed

theorem computeWorktreePath_join_witness:
  "plain_segment ''work'' \<and>
   computeWorktreePath (absolute_path [''work'']) ''app'' ''feat/login'' = ''/work/app-feat-login''"
proof -
  have h: "[''work''] \<noteq> [] \<and> (\<forall>s \<in> set [''work'']. plain_segment s) \<and> CHR ''/'' \<notin> set ''app''"
    by (simp add: plain_segment_def)
  have "computeWorktreePath (absolute_path [''work'']) ''app'' ''feat/login'' =
          absolute_path [''work''] @ ''/'' @ ''app'' @ ''-'' @
            map (\<lambda>x. if x = CHR ''/'' then CHR ''-'' else x) ''feat/login''"
    using computeWorktreePath_join [of "''/work''" "''app''" "''feat/login''" "[''work'']"] h
    by blast
  then show ?thesis
    using h by (simp add: absolute_path_def)
qed

text \<open>
  For a repository directly under the file system root the parent directory is
  \<^verbatim>\<open>/\<close>, and the joined path has one slash where the template
  \<^verbatim>\<open>{parentDir}/{repoName}-{sanitizedBranch}\<close> has two.
\<close>

theorem computeWorktreePath_root_counterexample:
  "computeWorktreePath ''/'' ''app'' ''feat/login'' = ''/app-feat-login'' \<and>
   computeWorktreePath ''/'' ''app'' ''feat/login'' \<noteq> ''/'' @ ''/'' @ ''app'' @ ''-'' @ ''feat-login''"
  by (simp add: computeWorktreePath_def path_join_def path_normalize_def normalizeString_def)

section \<open>Command-line arguments: properties\<close>

lemma dash_not_command:
  "startsWith a ''-'' \<Longrightarrow> a \<noteq> ''config'' \<and> a \<noteq> ''cleanup'' \<and> a \<noteq> ''clean''"
  by (auto simp: startsWith_def)

lemma parseLoop_skip_head:
  "unrecognized_option a \<Longrightarrow> parseLoop (a # rest) r = parseLoop rest r"
  using dash_not_command[of a] by (simp add: unrecognized_option_def)

lemma parseLoop_skip_inside:
  "''--path-file'' \<notin> set pre \<Longrightarrow> unrecognized_option a \<Longrightarrow>
   parseLoop (pre @ a # post) r = parseLoop (pre @ post) r"
proof (induction pre arbitrary: r)
  case Nil
  then show ?case using parseLoop_skip_head by simp
next
  case (Cons x pre)
  then have "x \<noteq> ''--path-file''" by auto
  then show ?case using Cons by simp
qed

lemma parseLoop_trailing_path_file:
  "''--path-file'' \<notin> set pre \<Longrightarrow> parseLoop (pre @ [''--path-file'']) r = parseLoop pre r"
proof (induction pre arbitrary: r)
  case Nil
  then show ?case by (simp add: startsWith_def)
next
  case (Cons x pre)
  then have "x \<noteq> ''--path-file''" by auto
  then show ?case using Cons by simp
qed

lemma parseLoop_pathFile_kept:
  "''--path-file'' \<notin> set args \<Longrightarrow> parseLoop args r = Inr r' \<Longrightarrow> pathFile r' = pathFile r"
proof (induction args arbitrary: r)
  case Nil
  then show ?case by simp
next
  case (Cons x args)
  then have "x \<noteq> ''--path-file''" by auto
  then show ?case using Cons by (auto split: if_splits)
qed

lemma parseLoop_fatal_positional:
  "parseLoop args r = Inl e \<Longrightarrow> list_ex (\<lambda>x. \<not> startsWith x ''-'') args"
proof (induction args r rule: parseLoop.induct)
  case (1 result)
  then show ?case by simp
next
  case (2 a rest result)
  show ?case
  proof (cases "startsWith a ''-''")
    case False
    then show ?thesis by simp
  next
    case True
    have "list_ex (\<lambda>x. \<not> startsWith x ''-'') rest \<or> list_ex (\<lambda>x. \<not> startsWith x ''-'') (tl rest)"
      using 2 True dash_not_command[of a] by (auto split: if_splits)
    then show ?thesis by (cases rest) auto
  qed
qed

lemma positional_not_option:
  "\<not> startsWith b ''-'' \<Longrightarrow>
   b \<noteq> ''--help'' \<and> b \<noteq> ''-h'' \<and> b \<noteq> ''--version'' \<and> b \<noteq> ''-v'' \<and> b \<noteq> ''-V'' \<and>
   b \<noteq> ''--path-file''"
  by (auto simp: startsWith_def)

lemma parseLoop_fatal_head:
  assumes "\<not> startsWith b ''-''" "b \<noteq> ''config''" "b \<noteq> ''cleanup''" "b \<noteq> ''clean''"
  shows "isl (parseLoop (b # rest) r)"
  using assms positional_not_option[OF assms(1)] by simp

lemma main_sole_path_file:
  assumes "truthy (git deps)" "truthy (claude deps)" "p \<noteq> []"
  shows "main [''--path-file''] deps (Some p) = LaunchedAssistant p"
proof -
  have "parseArgs [''--path-file''] = Inr initialArgs"
    by (simp add: parseArgs_def startsWith_def)
  then show ?thesis
    using assms by (simp add: main_def initialArgs_def main_dispatch_def truthy_def)
qed

lemma main_dispatch_no_pathFile:
  "pathFile r = None \<Longrightarrow> main_dispatch r deps wt \<noteq> WrotePathFile f q"
  by (simp add: main_dispatch_def truthy_def)

text \<open>
  Claim C10. The argument parser skips an unrecognized argument that starts with a
  hyphen, at the head of the arguments still to read and anywhere it is read as an
  option; a fatal usage error arises only when some argument has no leading hyphen, and
  an unknown argument without one is fatal. A trailing \<^verbatim>\<open>--path-file\<close> with no
  value after it is skipped as well: the parsed arguments are those of the command line
  without it, the path file stays unset, the path is never written, and with the
  dependencies present and a worktree created the assistant is launched.
\<close>

theorem parseArgs_dash_arguments:
  "(unrecognized_option a \<longrightarrow> parseLoop (a # rest) r = parseLoop rest r)
   \<and> (''--path-file'' \<notin> set pre \<and> unrecognized_option a \<longrightarrow>
        parseArgs (pre @ a # post) = parseArgs (pre @ post))
   \<and> (parseArgs args = Inl e \<longrightarrow> list_ex (\<lambda>x. \<not> startsWith x ''-'') args)
   \<and> (\<not> startsWith b ''-'' \<and> b \<noteq> ''config'' \<and> b \<noteq> ''cleanup'' \<and> b \<noteq> ''clean'' \<longrightarrow>
        isl (parseLoop (b # rest) r))
   \<and> (''--path-file'' \<notin> set pre \<longrightarrow>
        parseArgs (pre @ [''--path-file'']) = parseArgs pre
        \<and> (\<forall>r'. parseArgs (pre @ [''--path-file'']) = Inr r' \<longrightarrow> pathFile r' = None)
        \<and> (\<forall>f q. main (pre @ [''--path-file'']) deps wt \<noteq> WrotePathFile f q))
   \<and> (truthy (git deps) \<and> truthy (claude deps) \<and> p \<noteq> [] \<longrightarrow>
        main [''--path-file''] deps (Some p) = LaunchedAssistant p)"
proof (intro conjI impI allI)
  assume "unrecognized_option a"
  then show "parseLoop (a # rest) r = parseLoop rest r"
    by (rule parseLoop_skip_head)
next
  assume "''--path-file'' \<notin> set pre \<and> unrecognized_option a"
  then show "parseArgs (pre @ a # post) = parseArgs (pre @ post)"
    by (simp add: parseArgs_def parseLoop_skip_inside)
next
  assume "parseArgs args = Inl e"
  then show "list_ex (\<lambda>x. \<not> startsWith x ''-'') args"
    unfolding parseArgs_def by (rule parseLoop_fatal_positional)
next
  assume "\<not> startsWith b ''-'' \<and> b \<noteq> ''config'' \<and> b \<noteq> ''cleanup'' \<and> b \<noteq> ''clean''"
  then show "isl (parseLoop (b # rest) r)"
    using parseLoop_fatal_head by blast
next
  assume h: "''--path-file'' \<notin> set pre"
  show eq: "parseArgs (pre @ [''--path-file'']) = parseArgs pre"
    using h by (simp add: parseArgs_def parseLoop_trailing_path_file)
  show none: "pathFile r' = None" if "parseArgs (pre @ [''--path-file'']) = Inr r'" for r'
    using that eq h parseLoop_pathFile_kept[of pre initialArgs r']
    by (simp add: parseArgs_def initialArgs_def)
  show "main (pre @ [''--path-file'']) deps wt \<noteq> WrotePathFile f q" for f q
  proof (cases "parseArgs (pre @ [''--path-file''])")
    case (Inl x)
    then show ?thesis by (simp add: main_def)
  next
    case (Inr r')
    then show ?thesis
      using none[OF Inr] by (simp add: main_def main_dispatch_no_pathFile)
  qed
next
  assume "truthy (git deps) \<and> truthy (claude deps) \<and> p \<noteq> []"
  then show "main [''--path-file''] deps (Some p) = LaunchedAssistant p"
    using main_sole_path_file by blast
qed

theorem parseArgs_dash_arguments_witness:
  "unrecognized_option ''--verbose''
   \<and> parseArgs [''cleanup'', ''--verbose'', ''config''] = parseArgs [''cleanup'', ''config'']
   \<and> parseArgs [''cleanup'', ''--path-file''] = parseArgs [''cleanup'']
   \<and> isl (parseLoop [''deploy'', ''config''] initialArgs)
   \<and> main [''--path-file'']
        \<lparr>git = Some ''/usr/bin/git'', claude = Some ''/usr/bin/claude'', gh = None, bun = None\<rparr>
        (Some ''/work/app-x'') = LaunchedAssistant ''/work/app-x''"
proof -
  let ?deps = "\<lparr>git = Some ''/usr/bin/git'', claude = Some ''/usr/bin/claude'', gh = None, bun = None\<rparr>"
  note t = parseArgs_dash_arguments [of "''--verbose''" "[''config'']" initialArgs "[''cleanup'']"
      "[''config'']" "[''deploy'']" "Exit 1 []" "''deploy''" ?deps "None" "''/work/app-x''"]
  have u: "unrecognized_option ''--verbose''"
    by (simp add: unrecognized_option_def startsWith_def)
  have n: "''--path-file'' \<notin> set [''cleanup'']" by simp
  have d: "\<not> startsWith ''deploy'' ''-'' \<and> ''deploy'' \<noteq> ''config'' \<and> ''deploy'' \<noteq> ''cleanup'' \<and>
           ''deploy'' \<noteq> ''clean''"
    by (simp add: startsWith_def)
  have g: "truthy (git ?deps) \<and> truthy (claude ?deps) \<and> ''/work/app-x'' \<noteq> []"
    by (simp add: truthy_def)
  have 1: "parseArgs ([''cleanup''] @ ''--verbose'' # [''config'']) = parseArgs ([''cleanup''] @ [''config''])"
    using t u n by blast
  have 2: "parseArgs ([''cleanup''] @ [''--path-file'']) = parseArgs [''cleanup'']"
    using t n by blast
  have 3: "isl (parseLoop (''deploy'' # [''config'']) initialArgs)"
    using t d by blast
  have 4: "main [''--path-file''] ?deps (Some ''/work/app-x'') = LaunchedAssistant ''/work/app-x''"
    using t g by blast
  show ?thesis using u 1 2 3 4 by simp
qed

section \<open>Cleanup safety classifier: properties\<close>

lemma candidateOf_fields:
  "entry (fst (candidateOf sp pj hasGh root d e w)) = e \<and>
   safeToClean (fst (candidateOf sp pj hasGh root d e w)) =
     (merged (fst (candidateOf sp pj hasGh root d e w)) \<or>
      (deletedOnRemote (fst (candidateOf sp pj hasGh root d e w)) \<and> \<not> truthy (branch e)) \<or>
      prMerged (pr (fst (candidateOf sp pj hasGh root d e w))))"
  by (simp add: candidateOf_def prMerged_def Let_def split: prod.splits)

lemma candidateOf_no_branch:
  "\<not> truthy (branch e) \<Longrightarrow>
   \<not> merged (fst (candidateOf sp pj hasGh root d e w)) \<and>
   \<not> deletedOnRemote (fst (candidateOf sp pj hasGh root d e w)) \<and>
   pr (fst (candidateOf sp pj hasGh root d e w)) = None"
  by (simp add: candidateOf_def Let_def split: prod.splits)

text \<open>
  Claim C1. For every candidate built from a linked worktree, the composite verdict is:
  merged, or deleted on the remote and detached, or a review request exists whose state
  is \<^verbatim>\<open>MERGED\<close>. A candidate that is not merged, whose remote tracking reference
  is live and that has no review request is not safe; a candidate with a review request
  in merged state is safe.
\<close>

theorem safeToClean_composite:
  "(let c = fst (candidateOf sp pj hasGh root d e w) in
      safeToClean c = (merged c \<or> (deletedOnRemote c \<and> branch e = None) \<or> prMerged (pr c))
      \<and> (\<not> merged c \<and> \<not> deletedOnRemote c \<and> pr c = None \<longrightarrow> \<not> safeToClean c)
      \<and> (\<forall>i. pr c = Some i \<and> state i = ''MERGED'' \<longrightarrow> safeToClean c))"
proof -
  let ?c = "fst (candidateOf sp pj hasGh root d e w)"
  have eq: "safeToClean ?c = (merged ?c \<or> (deletedOnRemote ?c \<and> \<not> truthy (branch e)) \<or> prMerged (pr ?c))"
    using candidateOf_fields[of sp pj hasGh root d e w] by blast
  have det: "(deletedOnRemote ?c \<and> \<not> truthy (branch e)) = (deletedOnRemote ?c \<and> branch e = None)"
    using candidateOf_no_branch[of e sp pj hasGh root d w] by (auto simp: truthy_def)
  have 1: "safeToClean ?c = (merged ?c \<or> (deletedOnRemote ?c \<and> branch e = None) \<or> prMerged (pr ?c))"
    using eq det by simp
  have 2: "\<not> merged ?c \<and> \<not> deletedOnRemote ?c \<and> pr ?c = None \<longrightarrow> \<not> safeToClean ?c"
    using 1 by (simp add: prMerged_def)
  have 3: "\<forall>i. pr ?c = Some i \<and> state i = ''MERGED'' \<longrightarrow> safeToClean ?c"
    using 1 by (simp add: prMerged_def)
  show ?thesis unfolding Let_def using 1 2 3 by blast
qed

lemma sample_run_without_tool:
  "fst (candidateOf (canned sample_world) sample_json False ''/work/app'' ''main'' sample_entry ()) =
     \<lparr>entry = sample_entry, merged = False, deletedOnRemote = False, pr = None,
      safeToClean = False\<rparr>"
  by code_simp

lemma sample_run_with_tool:
  "fst (candidateOf (canned sample_world) sample_json True ''/work/app'' ''main'' sample_entry ()) =
     \<lparr>entry = sample_entry, merged = False, deletedOnRemote = False, pr = Some sample_pr,
      safeToClean = True\<rparr>"
  by code_simp

theorem safeToClean_composite_witness:
  "\<not> merged (fst (candidateOf (canned sample_world) sample_json False ''/work/app'' ''main'' sample_entry ()))
   \<and> \<not> deletedOnRemote (fst (candidateOf (canned sample_world) sample_json False ''/work/app'' ''main'' sample_entry ()))
   \<and> pr (fst (candidateOf (canned sample_world) sample_json False ''/work/app'' ''main'' sample_entry ())) = None
   \<and> \<not> safeToClean (fst (candidateOf (canned sample_world) sample_json False ''/work/app'' ''main'' sample_entry ()))
   \<and> \<not> merged (fst (candidateOf (canned sample_world) sample_json True ''/work/app'' ''main'' sample_entry ()))
   \<and> \<not> deletedOnRemote (fst (candidateOf (canned sample_world) sample_json True ''/work/app'' ''main'' sample_entry ()))
   \<and> pr (fst (candidateOf (canned sample_world) sample_json True ''/work/app'' ''main'' sample_entry ())) = Some sample_pr
   \<and> state sample_pr = ''MERGED''
   \<and> safeToClean (fst (candidateOf (canned sample_world) sample_json True ''/work/app'' ''main'' sample_entry ()))"
proof -
  let ?c1 = "fst (candidateOf (canned sample_world) sample_json False ''/work/app'' ''main'' sample_entry ())"
  let ?c2 = "fst (candidateOf (canned sample_world) sample_json True ''/work/app'' ''main'' sample_entry ())"
  have h1: "\<not> merged ?c1 \<and> \<not> deletedOnRemote ?c1 \<and> pr ?c1 = None"
    by (simp add: sample_run_without_tool)
  have h2: "\<not> merged ?c2 \<and> \<not> deletedOnRemote ?c2 \<and> pr ?c2 = Some sample_pr \<and> state sample_pr = ''MERGED''"
    by (simp add: sample_run_with_tool) (simp add: sample_pr_def)
  have 1: "\<not> safeToClean ?c1"
    using safeToClean_composite [of "canned sample_world" sample_json False "''/work/app''" "''main''"
        sample_entry "()"] h1
    unfolding Let_def by blast
  have 2: "safeToClean ?c2"
    using safeToClean_composite [of "canned sample_world" sample_json True "''/work/app''" "''main''"
        sample_entry "()"] h2
    unfolding Let_def by blast
  show ?thesis using h1 h2 1 2 by blast
qed

text \<open>
  Claim C9. The remote-deletion probe is false for an entry without a branch, so the
  disjunct "deleted on the remote and detached" never holds: the verdict is merged or a
  review request in state \<^verbatim>\<open>MERGED\<close>, and a detached worktree is never marked
  safe to reclaim.
\<close>

theorem detached_never_safe:
  "(let c = fst (candidateOf sp pj hasGh root d e w) in
      \<not> (deletedOnRemote c \<and> \<not> truthy (branch e))
      \<and> safeToClean c = (merged c \<or> prMerged (pr c))
      \<and> (branch e = None \<longrightarrow> \<not> deletedOnRemote c \<and> \<not> safeToClean c))"
proof -
  let ?c = "fst (candidateOf sp pj hasGh root d e w)"
  have eq: "safeToClean ?c = (merged ?c \<or> (deletedOnRemote ?c \<and> \<not> truthy (branch e)) \<or> prMerged (pr ?c))"
    using candidateOf_fields[of sp pj hasGh root d e w] by blast
  have 1: "\<not> (deletedOnRemote ?c \<and> \<not> truthy (branch e))"
    using candidateOf_no_branch[of e sp pj hasGh root d w] by blast
  have 2: "safeToClean ?c = (merged ?c \<or> prMerged (pr ?c))"
    using eq 1 by blast
  have 3: "branch e = None \<longrightarrow> \<not> deletedOnRemote ?c \<and> \<not> safeToClean ?c"
    using 2 candidateOf_no_branch[of e sp pj hasGh root d w]
    by (auto simp: truthy_def prMerged_def)
  show ?thesis unfolding Let_def using 1 2 3 by blast
qed

lemma sample_run_detached:
  "fst (candidateOf (canned []) sample_json True ''/work/app'' ''main'' sample_detached ()) =
     \<lparr>entry = sample_detached, merged = False, deletedOnRemote = False, pr = None,
      safeToClean = False\<rparr>"
  by code_simp

theorem detached_never_safe_witness:
  "branch sample_detached = None
   \<and> \<not> deletedOnRemote (fst (candidateOf (canned []) sample_json True ''/work/app'' ''main'' sample_detached ()))
   \<and> \<not> safeToClean (fst (candidateOf (canned []) sample_json True ''/work/app'' ''main'' sample_detached ()))"
proof -
  have h: "branch sample_detached = None"
    by (simp add: sample_detached_def)
  show ?thesis
    using detached_never_safe [of "canned []" sample_json True "''/work/app''" "''main''"
        sample_detached "()"] h
    unfolding Let_def by blast
qed

section \<open>Branch name validation: properties\<close>

lemma validateBranchName_unfold:
  "validateBranchName sp nm root w =
     (case fst (formatProbe sp nm root w) of
        Inl e \<Rightarrow> (Inl e, snd (formatProbe sp nm root w))
      | Inr r \<Rightarrow>
          if exitCode r \<noteq> 0
          then (Inr (Some ''Invalid branch name''), snd (formatProbe sp nm root w))
          else (case fst (existsProbe sp nm root (snd (formatProbe sp nm root w))) of
                  Inl e \<Rightarrow> (Inl e, snd (existsProbe sp nm root (snd (formatProbe sp nm root w))))
                | Inr r2 \<Rightarrow>
                    if exitCode r2 = 0
                    then (Inr (Some (''Branch '' @ [quote] @ nm @ [quote] @ '' already exists'')),
                          snd (existsProbe sp nm root (snd (formatProbe sp nm root w))))
                    else (Inr None, snd (existsProbe sp nm root (snd (formatProbe sp nm root w))))))"
  unfolding validateBranchName_def formatProbe_def existsProbe_def
  by (cases "sp [''git'', ''check-ref-format'', ''--branch'', nm] (Some root) w")
     (auto split: sum.split prod.split)

lemma validateBranchName_format_throws:
  "fst (formatProbe sp nm root w) = Inl e \<Longrightarrow> fst (validateBranchName sp nm root w) = Inl e"
  by (simp add: validateBranchName_unfold)

lemma validateBranchName_invalid:
  "fst (formatProbe sp nm root w) = Inr r \<Longrightarrow> exitCode r \<noteq> 0 \<Longrightarrow>
   fst (validateBranchName sp nm root w) = Inr (Some ''Invalid branch name'')"
  by (simp add: validateBranchName_unfold)

lemma validateBranchName_second:
  "fst (formatProbe sp nm root w) = Inr r \<Longrightarrow> exitCode r = 0 \<Longrightarrow>
   fst (validateBranchName sp nm root w) =
     (case fst (existsProbe sp nm root (snd (formatProbe sp nm root w))) of
        Inl e \<Rightarrow> Inl e
      | Inr r2 \<Rightarrow> if exitCode r2 = 0
                  then Inr (Some (''Branch '' @ [quote] @ nm @ [quote] @ '' already exists''))
                  else Inr None)"
  by (simp add: validateBranchName_unfold split: sum.split)

lemma validateBranchName_raises_iff:
  "(fst (validateBranchName sp nm root w) = Inl e) =
     (fst (formatProbe sp nm root w) = Inl e \<or>
      ((\<exists>r. fst (formatProbe sp nm root w) = Inr r \<and> exitCode r = 0) \<and>
       fst (existsProbe sp nm root (snd (formatProbe sp nm root w))) = Inl e))"
  by (simp add: validateBranchName_unfold split: sum.split)

lemma validateBranchName_reason_nonempty:
  "fst (validateBranchName sp nm root w) = Inr (Some reason) \<Longrightarrow> reason \<noteq> []"
  by (auto simp: validateBranchName_unfold split: sum.splits if_splits)

lemma validateBranchName_returning:
  "\<not> isl (fst (validateBranchName (returning sp0) nm root w0))"
  by (simp add: validateBranchName_unfold formatProbe_def existsProbe_def returning_def)


text \<open>
  Claim C4, as amended. \<^verbatim>\<open>validateBranchName\<close> raises exactly when the process
  primitive throws while running one of its two probes, and then raises that error; with
  a primitive that never throws it never raises. When the format probe runs and exits
  nonzero it returns a reason; when the format probe passes and the existence probe
  runs and exits zero it returns a reason naming the branch; when the format probe
  passes and the existence probe runs and exits nonzero it returns no reason. Every
  reason returned is a non-empty string.
\<close>

theorem validateBranchName_reason:
  "((fst (validateBranchName sp nm root w) = Inl e) =
      (fst (formatProbe sp nm root w) = Inl e \<or>
       ((\<exists>r. fst (formatProbe sp nm root w) = Inr r \<and> exitCode r = 0) \<and>
        fst (existsProbe sp nm root (snd (formatProbe sp nm root w))) = Inl e)))
   \<and> (fst (formatProbe sp nm root w) = Inr r \<and> exitCode r \<noteq> 0 \<longrightarrow>
        fst (validateBranchName sp nm root w) = Inr (Some ''Invalid branch name''))
   \<and> (fst (formatProbe sp nm root w) = Inr r \<and> exitCode r = 0 \<and>
       fst (existsProbe sp nm root (snd (formatProbe sp nm root w))) = Inr r2 \<and> exitCode r2 = 0 \<longrightarrow>
        fst (validateBranchName sp nm root w) =
          Inr (Some (''Branch '' @ [quote] @ nm @ [quote] @ '' already exists'')))
   \<and> (fst (formatProbe sp nm root w) = Inr r \<and> exitCode r = 0 \<and>
       fst (existsProbe sp nm root (snd (formatProbe sp nm root w))) = Inr r2 \<and> exitCode r2 \<noteq> 0 \<longrightarrow>
        fst (validateBranchName sp nm root w) = Inr None)
   \<and> (fst (validateBranchName sp nm root w) = Inr (Some reason) \<longrightarrow> reason \<noteq> [])
   \<and> \<not> isl (fst (validateBranchName (returning sp0) nm root w0))"
proof (intro conjI impI)
  show "(fst (validateBranchName sp nm root w) = Inl e) =
      (fst (formatProbe sp nm root w) = Inl e \<or>
       ((\<exists>r. fst (formatProbe sp nm root w) = Inr r \<and> exitCode r = 0) \<and>
        fst (existsProbe sp nm root (snd (formatProbe sp nm root w))) = Inl e))"
    by (rule validateBranchName_raises_iff)
next
  assume h: "fst (formatProbe sp nm root w) = Inr r \<and> exitCode r \<noteq> 0"
  show "fst (validateBranchName sp nm root w) = Inr (Some ''Invalid branch name'')"
    using h[THEN conjunct1] h[THEN conjunct2] by (rule validateBranchName_invalid)
next
  assume h: "fst (formatProbe sp nm root w) = Inr r \<and> exitCode r = 0 \<and>
       fst (existsProbe sp nm root (snd (formatProbe sp nm root w))) = Inr r2 \<and> exitCode r2 = 0"
  then show "fst (validateBranchName sp nm root w) =
          Inr (Some (''Branch '' @ [quote] @ nm @ [quote] @ '' already exists''))"
    using validateBranchName_second[of sp nm root w r] by simp
next
  assume h: "fst (formatProbe sp nm root w) = Inr r \<and> exitCode r = 0 \<and>
       fst (existsProbe sp nm root (snd (formatProbe sp nm root w))) = Inr r2 \<and> exitCode r2 \<noteq> 0"
  then show "fst (validateBranchName sp nm root w) = Inr None"
    using validateBranchName_second[of sp nm root w r] by simp
next
  assume "fst (validateBranchName sp nm root w) = Inr (Some reason)"
  then show "reason \<noteq> []"
    by (rule validateBranchName_reason_nonempty)
next
  show "\<not> isl (fst (validateBranchName (returning sp0) nm root w0))"
    by (rule validateBranchName_returning)
qed

lemma names_world_runs:
  "fst (formatProbe (host [''/work/app''] names_world) ''bad name'' ''/work/app'' ()) =
     Inr \<lparr>exitCode = 1, stdout = [], stderr = ''fatal: not a valid branch name''\<rparr>"
  "fst (formatProbe (host [''/work/app''] names_world) ''main'' ''/work/app'' ()) = Inr (ok ''main'')"
  "fst (existsProbe (host [''/work/app''] names_world) ''main'' ''/work/app''
      (snd (formatProbe (host [''/work/app''] names_world) ''main'' ''/work/app'' ()))) =
     Inr (ok ''4b825dc'')"
  "fst (formatProbe (host [''/work/app''] names_world) ''feat/new'' ''/work/app'' ()) =
     Inr (ok ''feat/new'')"
  "fst (existsProbe (host [''/work/app''] names_world) ''feat/new'' ''/work/app''
      (snd (formatProbe (host [''/work/app''] names_world) ''feat/new'' ''/work/app'' ()))) =
     Inr \<lparr>exitCode = 128, stdout = [], stderr = ''fatal: not available''\<rparr>"
  "fst (formatProbe (host [''/work/app''] names_world) (''feat'' @ [CHR 0x00]) ''/work/app'' ()) =
     Inl (Error ''spawnSync: argument contains a null byte'')"
  by code_simp+

theorem validateBranchName_reason_witness:
  "fst (validateBranchName (host [''/work/app''] names_world) ''bad name'' ''/work/app'' ()) =
     Inr (Some ''Invalid branch name'')
   \<and> fst (validateBranchName (host [''/work/app''] names_world) ''main'' ''/work/app'' ()) =
       Inr (Some (''Branch '' @ [quote] @ ''main'' @ [quote] @ '' already exists''))
   \<and> fst (validateBranchName (host [''/work/app''] names_world) ''feat/new'' ''/work/app'' ()) = Inr None
   \<and> fst (validateBranchName (host [''/work/app''] names_world) (''feat'' @ [CHR 0x00]) ''/work/app'' ()) =
       Inl (Error ''spawnSync: argument contains a null byte'')"
proof -
  let ?h = "host [''/work/app''] names_world :: unit throwing_spawn"
  let ?bad = "\<lparr>exitCode = 1, stdout = [], stderr = ''fatal: not a valid branch name''\<rparr>"
  let ?miss = "\<lparr>exitCode = 128, stdout = [], stderr = ''fatal: not available''\<rparr>"
  have e1: "exitCode ?bad \<noteq> 0" and e2: "exitCode (ok ''main'') = 0"
    and e3: "exitCode (ok ''4b825dc'') = 0" and e4: "exitCode (ok ''feat/new'') = 0"
    and e5: "exitCode ?miss \<noteq> 0"
    by (simp_all add: ok_def)
  have 1: "fst (validateBranchName ?h ''bad name'' ''/work/app'' ()) = Inr (Some ''Invalid branch name'')"
    using validateBranchName_reason [of ?h "''bad name''" "''/work/app''" "()" _ ?bad,
        THEN conjunct2, THEN conjunct1] names_world_runs(1) e1
    by blast
  have 2: "fst (validateBranchName ?h ''main'' ''/work/app'' ()) =
             Inr (Some (''Branch '' @ [quote] @ ''main'' @ [quote] @ '' already exists''))"
    using validateBranchName_reason [of ?h "''main''" "''/work/app''" "()" _ "ok ''main''" "ok ''4b825dc''",
        THEN conjunct2, THEN conjunct2, THEN conjunct1] names_world_runs(2,3) e2 e3
    by blast
  have 3: "fst (validateBranchName ?h ''feat/new'' ''/work/app'' ()) = Inr None"
    using validateBranchName_reason [of ?h "''feat/new''" "''/work/app''" "()" _ "ok ''feat/new''" ?miss,
        THEN conjunct2, THEN conjunct2, THEN conjunct2, THEN conjunct1] names_world_runs(4,5) e4 e5
    by blast
  have 4: "fst (validateBranchName ?h (''feat'' @ [CHR 0x00]) ''/work/app'' ()) =
             Inl (Error ''spawnSync: argument contains a null byte'')"
    using validateBranchName_reason [of ?h "''feat'' @ [CHR 0x00]" "''/work/app''" "()"
          "Error ''spawnSync: argument contains a null byte''", THEN conjunct1] names_world_runs(6)
    by blast
  show ?thesis
    by (intro conjI 1 2 3 4)
qed

text \<open>
  With a NUL in the candidate, and with a root directory that no longer exists, the
  process primitive throws and \<^verbatim>\<open>validateBranchName\<close>, which does not catch, raises.
\<close>

theorem validateBranchName_raises_counterexample:
  "fst (validateBranchName (host [''/work/app''] names_world) (''feat'' @ [CHR 0x00]) ''/work/app'' ()) =
     Inl (Error ''spawnSync: argument contains a null byte'')
   \<and> fst (validateBranchName (host [''/work/app''] names_world) ''feat/new'' ''/work/gone'' ()) =
       Inl (Error ''spawnSync: ENOENT: no such file or directory'')"
  by code_simp

section \<open>Default branch detection: properties\<close>

lemma detectDefaultBranch_last_probe:
  assumes "isl (fst (exec sp [''symbolic-ref'', ''refs/remotes/origin/HEAD''] (Some root) w))"
    and "w1 = snd (exec sp [''symbolic-ref'', ''refs/remotes/origin/HEAD''] (Some root) w)"
    and "isl (fst (exec sp [''rev-parse'', ''--verify'', ''refs/heads/main''] (Some root) w1))"
    and "w2 = snd (exec sp [''rev-parse'', ''--verify'', ''refs/heads/main''] (Some root) w1)"
    and "isl (fst (exec sp [''rev-parse'', ''--verify'', ''refs/heads/master''] (Some root) w2))"
    and "w3 = snd (exec sp [''rev-parse'', ''--verify'', ''refs/heads/master''] (Some root) w2)"
  shows "fst (detectDefaultBranch sp root w) =
           (case fst (exec sp [''branch'', ''--show-current''] (Some root) w3) of
              Inl e \<Rightarrow> Inl e
            | Inr cur \<Rightarrow> Inr (if cur \<noteq> [] then cur else ''main''))"
  using assms
  by (auto simp: detectDefaultBranch_def isl_def split: prod.splits sum.splits)

text \<open>
  Claim C7, at an input where it fails. With a version-control tool that has no origin
  default pointer, no branch \<^verbatim>\<open>main\<close> or \<^verbatim>\<open>master\<close>, and that rejects the
  current-branch query with a nonzero exit, \<^verbatim>\<open>detectDefaultBranch\<close> throws the
  error of the last probe; the literal \<^verbatim>\<open>main\<close> is returned only when that probe
  succeeds with empty output.
\<close>

theorem detectDefaultBranch_current_probe_throws:
  "detectDefaultBranch (canned old_git_world) ''/work/app'' () =
     (Inl (Error ''error: unknown option show-current''), ())"
  by code_simp

section \<open>Workspace enumerator: properties\<close>

lemma primary_first_snoc:
  "map isMain es = primary_first (length es) \<Longrightarrow>
   map isMain (es @ [\<lparr>path = p, branch = b, isMain = (length es = 0)\<rparr>]) =
     primary_first (length (es @ [\<lparr>path = p, branch = b, isMain = (length es = 0)\<rparr>]))"
  by (cases es) (auto simp: primary_first_def replicate_append_same)

lemma parseLines_flags:
  "map isMain es = primary_first (length es) \<Longrightarrow>
   map isMain (fst (parseLines ls es cur)) = primary_first (length (fst (parseLines ls es cur)))"
proof (induction ls es cur rule: parseLines.induct)
  case (1 entries current)
  then show ?case by simp
next
  case (2 line ls entries cpath cbranch)
  show ?case
    using 2 primary_first_snoc[OF "2.prems", of "the cpath" cbranch]
    by (simp del: length_append)
qed

lemma path_line_truthy:
  "startsWith line ''worktree '' \<Longrightarrow> length ''worktree '' < length line \<Longrightarrow>
   truthy (Some (drop (length ''worktree '') line))"
  by (simp add: truthy_def)

lemma parseLines_nonempty:
  "list_all (\<lambda>l. \<not> startsWith l ''worktree '' \<or> length ''worktree '' < length l) ls \<Longrightarrow>
   es \<noteq> [] \<or> truthy (fst cur) \<or> list_ex (\<lambda>l. startsWith l ''worktree '') ls \<Longrightarrow>
   fst (parseLines ls es cur) \<noteq> [] \<or> truthy (fst (snd (parseLines ls es cur)))"
proof (induction ls es cur rule: parseLines.induct)
  case (1 entries current)
  then show ?case by simp
next
  case (2 line ls entries cpath cbranch)
  have wf: "list_all (\<lambda>l. \<not> startsWith l ''worktree '' \<or> length ''worktree '' < length l) ls"
    using "2.prems"(1) by simp
  show ?case
  proof (cases "startsWith line ''worktree ''")
    case True
    then have "truthy (Some (drop (length ''worktree '') line))"
      using "2.prems"(1) path_line_truthy by simp
    then show ?thesis
      using True "2.IH"(1)[OF True wf] by simp
  next
    case False
    then have pre: "entries \<noteq> [] \<or> truthy cpath \<or> list_ex (\<lambda>l. startsWith l ''worktree '') ls"
      using "2.prems"(2) by simp
    show ?thesis
      using False pre wf 2 by (simp del: length_0_conv) blast?
  qed
qed

lemma primary_first_shape:
  assumes "map isMain es = primary_first (length es)" and "es \<noteq> []"
  shows "isMain (hd es) \<and> list_all (\<lambda>e. \<not> isMain e) (tl es) \<and> length (filter isMain es) = 1"
proof -
  obtain e rest where es: "es = e # rest"
    using assms(2) by (cases es) auto
  have m: "isMain e" and r: "map isMain rest = replicate (length rest) False"
    using assms(1) by (simp_all add: es primary_first_def)
  have "\<forall>x \<in> set rest. \<not> isMain x"
  proof
    fix x assume "x \<in> set rest"
    then have "isMain x \<in> set (map isMain rest)" by simp
    then show "\<not> isMain x" unfolding r by simp
  qed
  then have "list_all (\<lambda>e. \<not> isMain e) rest" and "filter isMain rest = []"
    by (simp_all add: list_all_iff filter_empty_conv)
  then show ?thesis using m by (simp add: es)
qed

lemma listWorktrees_result:
  "exec sp [''worktree'', ''list'', ''--porcelain''] (Some root) w = (Inr raw, w') \<Longrightarrow>
   listWorktrees sp root w =
     (Inr (let r = parseLines (lines_of raw) [] (None, None)
           in if truthy (fst (snd r))
              then fst r @ [\<lparr>path = the (fst (snd r)), branch = snd (snd r),
                             isMain = (length (fst r) = 0)\<rparr>]
              else fst r), w')"
  by (simp add: listWorktrees_def Let_def split: prod.splits)

lemma listWorktrees_flags:
  assumes "listWorktrees sp root w = (Inr es, w')"
  shows "map isMain es = primary_first (length es)"
proof -
  obtain raw where ex: "exec sp [''worktree'', ''list'', ''--porcelain''] (Some root) w = (Inr raw, w')"
    using assms by (auto simp: listWorktrees_def split: prod.splits sum.splits)
  let ?r = "parseLines (lines_of raw) [] (None, None)"
  have inv: "map isMain (fst ?r) = primary_first (length (fst ?r))"
    by (rule parseLines_flags) (simp add: primary_first_def)
  have es: "es = (if truthy (fst (snd ?r))
              then fst ?r @ [\<lparr>path = the (fst (snd ?r)), branch = snd (snd ?r),
                             isMain = (length (fst ?r) = 0)\<rparr>]
              else fst ?r)"
    using assms listWorktrees_result[OF ex] by (simp add: Let_def)
  show ?thesis
  proof (cases "truthy (fst (snd ?r))")
    case True
    then show ?thesis
      using es primary_first_snoc[OF inv] by simp
  next
    case False
    then show ?thesis using es inv by simp
  qed
qed

lemma listWorktrees_nonempty:
  assumes ex: "exec sp [''worktree'', ''list'', ''--porcelain''] (Some root) w = (Inr raw, w')"
    and pl: "porcelain_listing (lines_of raw)"
  shows "\<exists>es. listWorktrees sp root w = (Inr es, w') \<and> es \<noteq> []"
proof -
  let ?r = "parseLines (lines_of raw) [] (None, None)"
  have "fst ?r \<noteq> [] \<or> truthy (fst (snd ?r))"
    using pl parseLines_nonempty[of "lines_of raw" "[]" "(None, None)"]
    by (simp add: porcelain_listing_def)
  then show ?thesis
    using listWorktrees_result[OF ex] by (auto simp: Let_def)
qed

text \<open>
  Claim C5. The flags of every list the enumerator returns mark the first entry primary
  and every later entry secondary. When the listing is a non-empty porcelain listing
  (it has a path line, and every path line carries a path), the enumerator returns at
  least one entry, so exactly one entry is primary and it is the first parsed record.
\<close>

theorem listWorktrees_primary_first:
  "(listWorktrees sp root w = (Inr es, w') \<longrightarrow> map isMain es = primary_first (length es))
   \<and> (exec sp [''worktree'', ''list'', ''--porcelain''] (Some root) w = (Inr raw, w') \<and>
       porcelain_listing (lines_of raw) \<longrightarrow>
        (\<exists>es'. listWorktrees sp root w = (Inr es', w') \<and> es' \<noteq> [] \<and> isMain (hd es') \<and>
               list_all (\<lambda>e. \<not> isMain e) (tl es') \<and> length (filter isMain es') = 1))"
proof (intro conjI impI)
  assume "listWorktrees sp root w = (Inr es, w')"
  then show "map isMain es = primary_first (length es)"
    by (rule listWorktrees_flags)
next
  assume h: "exec sp [''worktree'', ''list'', ''--porcelain''] (Some root) w = (Inr raw, w') \<and>
       porcelain_listing (lines_of raw)"
  have ex: "exec sp [''worktree'', ''list'', ''--porcelain''] (Some root) w = (Inr raw, w')"
    and pl: "porcelain_listing (lines_of raw)"
    using h by (rule conjunct1, rule conjunct2)
  from listWorktrees_nonempty[OF ex pl]
  obtain es' where r: "listWorktrees sp root w = (Inr es', w')" and ne: "es' \<noteq> []"
    by (elim exE conjE)
  note sh = primary_first_shape[OF listWorktrees_flags[OF r] ne]
  show "\<exists>es'. listWorktrees sp root w = (Inr es', w') \<and> es' \<noteq> [] \<and> isMain (hd es') \<and>
               list_all (\<lambda>e. \<not> isMain e) (tl es') \<and> length (filter isMain es') = 1"
    by (rule exI[of _ es']) (intro conjI r ne sh[THEN conjunct1] sh[THEN conjunct2, THEN conjunct1]
        sh[THEN conjunct2, THEN conjunct2])
qed

lemma sample_listing_run:
  "listWorktrees (canned listing_world) ''/work/app'' () =
     (Inr [\<lparr>path = ''/work/app'', branch = Some ''main'', isMain = True\<rparr>,
           \<lparr>path = ''/work/app-feat-x'', branch = Some ''feat/x'', isMain = False\<rparr>,
           \<lparr>path = ''/work/app-tmp'', branch = None, isMain = False\<rparr>], ())"
  by code_simp

lemma sample_listing_porcelain:
  "porcelain_listing (lines_of (trim sample_listing))"
  by code_simp

lemma sample_listing_exec:
  "exec (canned listing_world) [''worktree'', ''list'', ''--porcelain''] (Some ''/work/app'') () =
     (Inr (trim sample_listing), ())"
  by code_simp

theorem listWorktrees_primary_first_witness:
  "listWorktrees (canned listing_world) ''/work/app'' () =
     (Inr [\<lparr>path = ''/work/app'', branch = Some ''main'', isMain = True\<rparr>,
           \<lparr>path = ''/work/app-feat-x'', branch = Some ''feat/x'', isMain = False\<rparr>,
           \<lparr>path = ''/work/app-tmp'', branch = None, isMain = False\<rparr>], ())
   \<and> porcelain_listing (lines_of (trim sample_listing))
   \<and> map isMain [\<lparr>path = ''/work/app'', branch = Some ''main'', isMain = True\<rparr>,
           \<lparr>path = ''/work/app-feat-x'', branch = Some ''feat/x'', isMain = False\<rparr>,
           \<lparr>path = ''/work/app-tmp'', branch = None, isMain = False\<rparr>] = primary_first 3
   \<and> (\<exists>es'. listWorktrees (canned listing_world) ''/work/app'' () = (Inr es', ()) \<and> es' \<noteq> [] \<and>
          isMain (hd es') \<and> list_all (\<lambda>e. \<not> isMain e) (tl es') \<and> length (filter isMain es') = 1)"
proof -
  let ?es = "[\<lparr>path = ''/work/app'', branch = Some ''main'', isMain = True\<rparr>,
           \<lparr>path = ''/work/app-feat-x'', branch = Some ''feat/x'', isMain = False\<rparr>,
           \<lparr>path = ''/work/app-tmp'', branch = None, isMain = False\<rparr>]"
  note t = listWorktrees_primary_first [of "canned listing_world" "''/work/app''" "()" ?es "()"
      "trim sample_listing"]
  have a: "map isMain ?es = primary_first (length ?es)"
    using t sample_listing_run by (rule conjunct1[THEN mp])
  have b: "\<exists>es'. listWorktrees (canned listing_world) ''/work/app'' () = (Inr es', ()) \<and> es' \<noteq> [] \<and>
          isMain (hd es') \<and> list_all (\<lambda>e. \<not> isMain e) (tl es') \<and> length (filter isMain es') = 1"
    using t conjI[OF sample_listing_exec sample_listing_porcelain] by (rule conjunct2[THEN mp])
  have "length ?es = 3" by simp
  then have a': "map isMain ?es = primary_first 3"
    using a by (simp only:)
  show ?thesis
    by (intro conjI sample_listing_run sample_listing_porcelain a' b)
qed

section \<open>Branch enumeration: properties\<close>

lemma set_collectLocal:
  "set (collectLocal ls acc) = set acc \<union> trim ` {l \<in> set ls. local_line l}"
  by (induction ls arbitrary: acc) (auto simp: local_line_def Let_def)

lemma set_insert_by: "set (insert_by cmp x ys) = insert x (set ys)"
  by (induction ys) auto

lemma set_sort_by: "set (sort_by cmp xs) = set xs"
  by (induction xs) (auto simp: sort_by_def set_insert_by)

lemma distinct_map_insert_by:
  "distinct (map f (insert_by cmp x ys)) = (f x \<notin> f ` set ys \<and> distinct (map f ys))"
  by (induction ys) (auto simp: set_insert_by)

lemma distinct_map_sort_by:
  "distinct (map f (sort_by cmp xs)) = distinct (map f xs)"
proof (induction xs)
  case Nil
  then show ?case by (simp add: sort_by_def)
next
  case (Cons x xs)
  have "sort_by cmp (x # xs) = insert_by cmp x (sort_by cmp xs)"
    by (simp add: sort_by_def)
  then show ?case
    using Cons by (simp add: distinct_map_insert_by set_sort_by)
qed

lemma sorted_insert_by:
  assumes "consistent cmp" and "sorted_wrt (cmp_le cmp) ys"
  shows "sorted_wrt (cmp_le cmp) (insert_by cmp x ys)"
  using assms(2)
proof (induction ys)
  case Nil
  then show ?case by simp
next
  case (Cons y ys)
  have tot: "\<And>a b. cmp_le cmp a b \<or> cmp_le cmp b a"
    and tr: "\<And>a b c. cmp_le cmp a b \<Longrightarrow> cmp_le cmp b c \<Longrightarrow> cmp_le cmp a c"
    using assms(1) unfolding consistent_def by blast+
  show ?case
  proof (cases "cmp x y \<le> 0")
    case True
    then have xy: "cmp_le cmp x y" by (simp add: cmp_le_def)
    have "\<forall>z \<in> set ys. cmp_le cmp x z"
      using Cons.prems xy tr by auto
    then show ?thesis using True xy Cons.prems by simp
  next
    case False
    then have yx: "cmp_le cmp y x"
      using tot[of x y] by (simp add: cmp_le_def)
    then show ?thesis
      using False Cons by (auto simp: set_insert_by)
  qed
qed

lemma sorted_sort_by:
  "consistent cmp \<Longrightarrow> sorted_wrt (cmp_le cmp) (sort_by cmp xs)"
proof (induction xs)
  case Nil
  then show ?case by (simp add: sort_by_def)
next
  case (Cons x xs)
  have "sort_by cmp (x # xs) = insert_by cmp x (sort_by cmp xs)"
    by (simp add: sort_by_def)
  then show ?case
    using Cons sorted_insert_by by metis
qed

lemma entries_ok_snoc:
  "entries_ok locals es \<Longrightarrow> short \<notin> fst ` set es \<Longrightarrow>
   entries_ok locals
     (es @ [(short, \<lparr>name = short, ref = (if short \<in> set locals then short else nm)\<rparr>)])"
  by (auto simp: entries_ok_def)

lemma buildEntries_ok:
  "entries_ok locals es \<Longrightarrow> entries_ok locals (buildEntries locals ls es)"
proof (induction ls arbitrary: es)
  case Nil
  then show ?case by simp
next
  case (Cons line ls)
  show ?case
    using Cons.prems Cons.IH entries_ok_snoc
    by (simp add: Let_def del: set_append)
qed

lemma buildEntries_mono:
  "fst ` set es \<subseteq> fst ` set (buildEntries locals ls es)"
proof (induction ls arbitrary: es)
  case Nil
  then show ?case by simp
next
  case (Cons line ls)
  have "fst ` set es \<subseteq> fst ` set (es @ [x])" for x
    by auto
  then show ?case
    using Cons.IH by (simp add: Let_def del: set_append image_Un) (meson order_trans)
qed

lemma buildEntries_has:
  "l \<in> set ls \<Longrightarrow> local_line l \<Longrightarrow> trim l \<noteq> ''HEAD'' \<Longrightarrow>
   trim l \<in> fst ` set (buildEntries locals ls es)"
proof (induction ls arbitrary: es)
  case Nil
  then show ?case by simp
next
  case (Cons line ls)
  show ?case
  proof (cases "l = line")
    case True
    have *: "trim l \<in> fst ` set es' \<Longrightarrow> trim l \<in> fst ` set (buildEntries locals ls es')" for es'
      using buildEntries_mono by blast
    show ?thesis
      using True Cons.prems(2,3) *
      by (simp add: Let_def local_line_def del: set_append image_Un) auto?
  next
    case False
    then have "l \<in> set ls" using Cons.prems(1) by simp
    then show ?thesis
      using Cons.IH Cons.prems(2,3) by (simp add: Let_def)
  qed
qed

lemma listBranches_result:
  "exec sp [''branch'', ''-a'', ''--format=%(refname:short)''] (Some root) w = (Inr raw, w') \<Longrightarrow>
   listBranches sp lc root d w =
     (Inr (sort_by (branchCompare lc d)
             (map snd (buildEntries (collectLocal (lines_of raw) []) (lines_of raw) []))), w')"
  by (simp add: listBranches_def Let_def)

lemma entries_names:
  "entries_ok locals es \<Longrightarrow> map name (map snd es) = map fst es"
  by (simp add: entries_ok_def)

lemma distinct_filter_one:
  "distinct (map f xs) \<Longrightarrow> x \<in> set xs \<Longrightarrow> length (filter (\<lambda>y. f y = f x) xs) = 1"
proof (induction xs)
  case Nil
  then show ?case by simp
next
  case (Cons a xs)
  show ?case
  proof (cases "f a = f x")
    case True
    then have "\<forall>y \<in> set xs. f y \<noteq> f x"
      using Cons.prems(1) by (auto simp: image_iff)
    then have "filter (\<lambda>y. f y = f x) xs = []"
      by (simp add: filter_empty_conv)
    then show ?thesis using True by simp
  next
    case False
    then have "x \<in> set xs" using Cons.prems(2) by auto
    then show ?thesis using False Cons by simp
  qed
qed

lemma branches_facts:
  fixes raw :: string and lc :: "string \<Rightarrow> string \<Rightarrow> int" and d :: string
  defines "locals \<equiv> collectLocal (lines_of raw) []"
  defines "es \<equiv> buildEntries locals (lines_of raw) []"
  defines "bs \<equiv> sort_by (branchCompare lc d) (map snd es)"
  shows "distinct (map name bs)"
    and "l \<in> set (lines_of raw) \<Longrightarrow> local_line l \<Longrightarrow> b \<in> set bs \<Longrightarrow> name b = trim l \<Longrightarrow>
         ref b = trim l"
    and "l \<in> set (lines_of raw) \<Longrightarrow> local_line l \<Longrightarrow> trim l \<noteq> ''HEAD'' \<Longrightarrow>
         length (filter (\<lambda>b. name b = trim l) bs) = 1"
proof -
  have ok: "entries_ok locals es"
    unfolding es_def by (rule buildEntries_ok) (simp add: entries_ok_def)
  have setbs: "set bs = snd ` set es"
    unfolding bs_def by (simp add: set_sort_by)
  show dist: "distinct (map name bs)"
    unfolding bs_def using ok entries_names[OF ok]
    by (simp add: distinct_map_sort_by entries_ok_def del: map_map)
  {
    assume l: "l \<in> set (lines_of raw)" "local_line l"
    have loc: "trim l \<in> set locals"
      unfolding locals_def using l by (auto simp: set_collectLocal)
    {
      assume b: "b \<in> set bs" "name b = trim l"
      then obtain p where p: "p \<in> set es" "b = snd p"
        using setbs by auto
      then have "fst p = trim l"
        using ok b(2) by (auto simp: entries_ok_def)
      then show "ref b = trim l"
        using ok p loc by (auto simp: entries_ok_def)
    }
    {
      assume h: "trim l \<noteq> ''HEAD''"
      have "trim l \<in> fst ` set es"
        unfolding es_def using l h by (rule buildEntries_has)
      then obtain p where p: "p \<in> set es" "fst p = trim l"
        by auto
      then have m: "snd p \<in> set bs" "name (snd p) = trim l"
        using setbs ok by (auto simp: entries_ok_def)
      show "length (filter (\<lambda>b. name b = trim l) bs) = 1"
        using distinct_filter_one[OF dist m(1)] m(2) by simp
    }
  }
qed

lemma consistent_letterCollate: "consistent letterCollate"
  unfolding consistent_def cmp_le_def letterCollate_def
  by (auto split: if_splits)

lemma cmp_le_branchCompare:
  "cmp_le (branchCompare lc d) a b = (name a = d \<or> (name b \<noteq> d \<and> cmp_le lc (name a) (name b)))"
  by (simp add: cmp_le_def branchCompare_def)

lemma consistent_branchCompare:
  assumes "consistent lc"
  shows "consistent (branchCompare lc d)"
proof -
  have tot: "\<And>a b. cmp_le lc a b \<or> cmp_le lc b a"
    and tr: "\<And>a b c. cmp_le lc a b \<Longrightarrow> cmp_le lc b c \<Longrightarrow> cmp_le lc a c"
    using assms unfolding consistent_def by blast+
  show ?thesis
    unfolding consistent_def cmp_le_branchCompare
    using tot tr by blast
qed

lemma branches_run:
  "listBranches (canned branches_world) letterCollate ''/work/app'' ''main'' () =
     (Inr [\<lparr>name = ''main'', ref = ''main''\<rparr>, \<lparr>name = ''alpha'', ref = ''alpha''\<rparr>,
           \<lparr>name = ''Beta'', ref = ''Beta''\<rparr>, \<lparr>name = ''zeta'', ref = ''origin/zeta''\<rparr>], ())"
  by code_simp

lemma branches_exec:
  "exec (canned branches_world) [''branch'', ''-a'', ''--format=%(refname:short)'']
     (Some ''/work/app'') () = (Inr branches_raw, ())"
  by code_simp

lemma sorted_without_default:
  assumes "\<forall>x \<in> set xs. name x \<noteq> d" and "sorted_wrt (cmp_le (branchCompare lc d)) xs"
  shows "sorted_wrt (cmp_le lc) (map name xs)"
proof -
  have "sorted_wrt (\<lambda>a b. cmp_le lc (name a) (name b)) xs"
    using assms(2)
  proof (rule sorted_wrt_mono_rel[rotated])
    fix a b assume "a \<in> set xs" "b \<in> set xs" "cmp_le (branchCompare lc d) a b"
    then show "cmp_le lc (name a) (name b)"
      using assms(1) by (simp add: cmp_le_branchCompare)
  qed
  then show ?thesis by (simp add: sorted_wrt_map)
qed

lemma default_first_sorted:
  assumes s: "sorted_wrt (cmp_le (branchCompare lc d)) bs" and dist: "distinct (map name bs)"
  shows "(d \<in> set (map name bs) \<longrightarrow> name (hd bs) = d) \<and>
         sorted_wrt (cmp_le lc) (if d \<in> set (map name bs) then tl (map name bs) else map name bs)"
proof (cases "d \<in> set (map name bs)")
  case False
  then have "\<forall>x \<in> set bs. name x \<noteq> d" by auto
  then show ?thesis
    using False sorted_without_default[OF _ s] by simp
next
  case True
  then obtain b rest where bs: "bs = b # rest"
    by (cases bs) auto
  have first: "name b = d"
  proof (rule ccontr)
    assume nb: "name b \<noteq> d"
    then obtain x where x: "x \<in> set rest" "name x = d"
      using True bs by auto
    then have "cmp_le (branchCompare lc d) b x"
      using s bs by simp
    then show False
      using nb x(2) by (simp add: cmp_le_branchCompare)
  qed
  have nod: "\<forall>x \<in> set rest. name x \<noteq> d"
    using dist first bs by (auto simp: image_iff)
  have "sorted_wrt (cmp_le (branchCompare lc d)) rest"
    using s bs by simp
  then have "sorted_wrt (cmp_le lc) (map name rest)"
    using sorted_without_default[OF nod] by simp
  then show ?thesis
    using True first bs by simp
qed




text \<open>
  Claim C3, as amended. With a consistent locale comparison, whenever the branch listing
  is read, the default branch (when it is among the display names) is the first element
  of the list returned, and the remaining elements are ordered by the host's
  locale-sensitive comparison of their display names.
\<close>

theorem listBranches_default_first_collated:
  "consistent lc \<and>
   exec sp [''branch'', ''-a'', ''--format=%(refname:short)''] (Some root) w = (Inr raw, w') \<longrightarrow>
   (\<exists>bs. listBranches sp lc root d w = (Inr bs, w')
      \<and> (d \<in> set (map name bs) \<longrightarrow> name (hd bs) = d)
      \<and> sorted_wrt (cmp_le lc)
           (if d \<in> set (map name bs) then tl (map name bs) else map name bs))"
proof
  assume h: "consistent lc \<and>
   exec sp [''branch'', ''-a'', ''--format=%(refname:short)''] (Some root) w = (Inr raw, w')"
  let ?bs = "sort_by (branchCompare lc d)
               (map snd (buildEntries (collectLocal (lines_of raw) []) (lines_of raw) []))"
  have r: "listBranches sp lc root d w = (Inr ?bs, w')"
    using h[THEN conjunct2] by (rule listBranches_result)
  have dist: "distinct (map name ?bs)"
    by (rule branches_facts(1))
  have srt: "sorted_wrt (cmp_le (branchCompare lc d)) ?bs"
    using consistent_branchCompare[OF h[THEN conjunct1]] by (rule sorted_sort_by)
  note f = default_first_sorted[OF srt dist]
  show "\<exists>bs. listBranches sp lc root d w = (Inr bs, w')
      \<and> (d \<in> set (map name bs) \<longrightarrow> name (hd bs) = d)
      \<and> sorted_wrt (cmp_le lc)
           (if d \<in> set (map name bs) then tl (map name bs) else map name bs)"
    by (rule exI[of _ ?bs]) (intro conjI r f[THEN conjunct1] f[THEN conjunct2])
qed

theorem listBranches_default_first_collated_witness:
  "consistent letterCollate
   \<and> (\<exists>bs. listBranches (canned branches_world) letterCollate ''/work/app'' ''main'' () = (Inr bs, ())
        \<and> ''main'' \<in> set (map name bs)
        \<and> name (hd bs) = ''main''
        \<and> sorted_wrt (cmp_le letterCollate) (tl (map name bs)))"
proof -
  from listBranches_default_first_collated [of letterCollate "canned branches_world" "''/work/app''"
      "()" branches_raw "()" "''main''", THEN mp, OF conjI[OF consistent_letterCollate branches_exec]]
  obtain bs where r: "listBranches (canned branches_world) letterCollate ''/work/app'' ''main'' () = (Inr bs, ())"
    and first: "''main'' \<in> set (map name bs) \<longrightarrow> name (hd bs) = ''main''"
    and srt: "sorted_wrt (cmp_le letterCollate)
           (if ''main'' \<in> set (map name bs) then tl (map name bs) else map name bs)"
    by (elim exE conjE)
  have bs: "bs = [\<lparr>name = ''main'', ref = ''main''\<rparr>, \<lparr>name = ''alpha'', ref = ''alpha''\<rparr>,
           \<lparr>name = ''Beta'', ref = ''Beta''\<rparr>, \<lparr>name = ''zeta'', ref = ''origin/zeta''\<rparr>]"
    using r branches_run by simp
  have m: "''main'' \<in> set (map name bs)"
    by (simp add: bs)
  have h: "name (hd bs) = ''main''"
    using first m by (rule mp)
  have s: "sorted_wrt (cmp_le letterCollate) (tl (map name bs))"
    using srt m by (simp only: if_True)
  show ?thesis
    by (intro conjI consistent_letterCollate exI[of _ bs] r m h s)
qed

text \<open>
  With the locale-sensitive comparison of the host, the branches \<^verbatim>\<open>Beta\<close>,
  \<^verbatim>\<open>alpha\<close>, \<^verbatim>\<open>zeta\<close> follow the default branch as \<^verbatim>\<open>alpha\<close>,
  \<^verbatim>\<open>Beta\<close>, \<^verbatim>\<open>zeta\<close>, which is not their order by code unit (upper case
  \<^verbatim>\<open>B\<close> is below lower case \<^verbatim>\<open>a\<close>).
\<close>

theorem listBranches_ordinal_counterexample:
  "map name (projr (fst (listBranches (canned branches_world) letterCollate ''/work/app'' ''main'' ()))) =
     [''main'', ''alpha'', ''Beta'', ''zeta'']
   \<and> \<not> sorted_wrt (\<lambda>a b. a \<le> b) [''alpha'', ''Beta'', ''zeta'']
   \<and> sorted_wrt (\<lambda>a b. a \<le> b) [''Beta'', ''alpha'', ''zeta'']"
  by (simp add: branches_run)

section \<open>Reclaimer: properties\<close>

lemma exec_result:
  "exec sp args cwd w =
     (if exitCode (fst (sp (''git'' # args) cwd w)) \<noteq> 0
      then Inl (Error (exec_message args (fst (sp (''git'' # args) cwd w))))
      else Inr (trim (stdout (fst (sp (''git'' # args) cwd w)))),
      snd (sp (''git'' # args) cwd w))"
  by (simp add: exec_def exec_message_def Let_def split: prod.splits)

lemma reclaimLoop_Cons:
  "reclaimLoop sp root (c # cs) n es w =
     (let r = fst (sp (removal_cmd (path (entry c))) (Some root) w);
          w1 = snd (sp (removal_cmd (path (entry c))) (Some root) w)
      in if exitCode r \<noteq> 0
         then reclaimLoop sp root cs n (es @ [failure_line (c, (removal_cmd (path (entry c)), r))]) w1
         else reclaimLoop sp root cs (n + 1) es
                (if truthy (branch (entry c))
                 then snd (sp [''git'', ''branch'', ''-D'', the (branch (entry c))] (Some root) w1)
                 else w1))"
  by (simp add: removeWorktree_def deleteBranch_def exec_result removal_cmd_def failure_line_def
      item_id_def Let_def)

lemma traced_apply:
  "traced sp cmd cwd (w, log) = (fst (sp cmd cwd w), (snd (sp cmd cwd w), log @ [(cmd, fst (sp cmd cwd w))]))"
  by (simp add: traced_def split: prod.splits)

lemma is_removal_cmd: "is_removal (removal_cmd p, r)"
  by (simp add: is_removal_def removal_cmd_def)

lemma not_removal_delete: "\<not> is_removal ([''git'', ''branch'', ''-D'', b], r)"
  by (simp add: is_removal_def)

lemma batch_ok_failed:
  assumes "batch_ok cs n (es @ [failure_line (c, e)]) new res"
    and "is_removal e" and "fst e = removal_cmd (path (entry c))" and "exitCode (snd e) \<noteq> 0"
  shows "batch_ok (c # cs) n es (e # new) res"
  using assms
  by (auto simp: batch_ok_def removal_succeeded_def removal_failed_def)

lemma batch_ok_removed:
  assumes "batch_ok cs (n + 1) es new res"
    and "is_removal e" and "fst e = removal_cmd (path (entry c))" and "exitCode (snd e) = 0"
  shows "batch_ok (c # cs) n es (e # new) res"
  using assms
  by (auto simp: batch_ok_def removal_succeeded_def removal_failed_def)

lemma batch_ok_removed_deleted:
  assumes "batch_ok cs (n + 1) es new res"
    and "is_removal e" and "fst e = removal_cmd (path (entry c))" and "exitCode (snd e) = 0"
    and "\<not> is_removal e2"
  shows "batch_ok (c # cs) n es (e # e2 # new) res"
  using assms
  by (auto simp: batch_ok_def removal_succeeded_def removal_failed_def)

lemma reclaimLoop_traced:
  "\<exists>new. reclaimLoop (traced sp) root cs n es (w, log) =
           (fst (reclaimLoop sp root cs n es w), fst (snd (reclaimLoop sp root cs n es w)),
            (snd (snd (reclaimLoop sp root cs n es w)), log @ new))
       \<and> batch_ok cs n es new
            (fst (reclaimLoop sp root cs n es w), fst (snd (reclaimLoop sp root cs n es w)))"
proof (induction cs arbitrary: n es w log)
  case Nil
  show ?case
    by (rule exI[of _ "[]"]) (simp add: batch_ok_def)
next
  case (Cons c cs)
  let ?cmd = "removal_cmd (path (entry c))"
  let ?r = "fst (sp ?cmd (Some root) w)"
  let ?w1 = "snd (sp ?cmd (Some root) w)"
  let ?e = "(?cmd, ?r)"
  have rem: "is_removal ?e" by (rule is_removal_cmd)
  show ?case
  proof (cases "exitCode ?r \<noteq> 0")
    case True
    let ?es1 = "es @ [failure_line (c, ?e)]"
    from Cons.IH[of n ?es1 ?w1 "log @ [?e]"]
    obtain new where
      t: "reclaimLoop (traced sp) root cs n ?es1 (?w1, log @ [?e]) =
           (fst (reclaimLoop sp root cs n ?es1 ?w1), fst (snd (reclaimLoop sp root cs n ?es1 ?w1)),
            (snd (snd (reclaimLoop sp root cs n ?es1 ?w1)), (log @ [?e]) @ new))"
      and b: "batch_ok cs n ?es1 new
            (fst (reclaimLoop sp root cs n ?es1 ?w1), fst (snd (reclaimLoop sp root cs n ?es1 ?w1)))"
      by (elim exE conjE)
    have u: "reclaimLoop sp root (c # cs) n es w = reclaimLoop sp root cs n ?es1 ?w1"
      using True by (simp add: reclaimLoop_Cons Let_def del: reclaimLoop.simps)
    have v: "reclaimLoop (traced sp) root (c # cs) n es (w, log) =
               reclaimLoop (traced sp) root cs n ?es1 (?w1, log @ [?e])"
      using True by (simp add: reclaimLoop_Cons traced_apply Let_def del: reclaimLoop.simps)
    have b': "batch_ok (c # cs) n es (?e # new)
            (fst (reclaimLoop sp root cs n ?es1 ?w1), fst (snd (reclaimLoop sp root cs n ?es1 ?w1)))"
      using b rem True by (intro batch_ok_failed) simp_all
    show ?thesis
      unfolding u v
      by (rule exI[of _ "?e # new"]) (simp add: t b' del: reclaimLoop.simps)
  next
    case False
    then have z: "exitCode ?r = 0" by simp
    show ?thesis
    proof (cases "truthy (branch (entry c))")
      case nb: False
      from Cons.IH[of "Suc n" es ?w1 "log @ [?e]"]
      obtain new where
        t: "reclaimLoop (traced sp) root cs (Suc n) es (?w1, log @ [?e]) =
             (fst (reclaimLoop sp root cs (Suc n) es ?w1), fst (snd (reclaimLoop sp root cs (Suc n) es ?w1)),
              (snd (snd (reclaimLoop sp root cs (Suc n) es ?w1)), (log @ [?e]) @ new))"
        and b: "batch_ok cs (Suc n) es new
              (fst (reclaimLoop sp root cs (Suc n) es ?w1), fst (snd (reclaimLoop sp root cs (Suc n) es ?w1)))"
        by (elim exE conjE)
      have u: "reclaimLoop sp root (c # cs) n es w = reclaimLoop sp root cs (Suc n) es ?w1"
        using z nb by (simp add: reclaimLoop_Cons Let_def del: reclaimLoop.simps)
      have v: "reclaimLoop (traced sp) root (c # cs) n es (w, log) =
                 reclaimLoop (traced sp) root cs (Suc n) es (?w1, log @ [?e])"
        using z nb by (simp add: reclaimLoop_Cons traced_apply Let_def del: reclaimLoop.simps)
      have b': "batch_ok (c # cs) n es (?e # new)
              (fst (reclaimLoop sp root cs (Suc n) es ?w1), fst (snd (reclaimLoop sp root cs (Suc n) es ?w1)))"
        using b rem z by (intro batch_ok_removed) simp_all
      show ?thesis
        unfolding u v
        by (rule exI[of _ "?e # new"]) (simp add: t b' del: reclaimLoop.simps)
    next
      case hb: True
      let ?del = "[''git'', ''branch'', ''-D'', the (branch (entry c))]"
      let ?r2 = "fst (sp ?del (Some root) ?w1)"
      let ?w2 = "snd (sp ?del (Some root) ?w1)"
      let ?e2 = "(?del, ?r2)"
      from Cons.IH[of "Suc n" es ?w2 "log @ [?e, ?e2]"]
      obtain new where
        t: "reclaimLoop (traced sp) root cs (Suc n) es (?w2, log @ [?e, ?e2]) =
             (fst (reclaimLoop sp root cs (Suc n) es ?w2), fst (snd (reclaimLoop sp root cs (Suc n) es ?w2)),
              (snd (snd (reclaimLoop sp root cs (Suc n) es ?w2)), (log @ [?e, ?e2]) @ new))"
        and b: "batch_ok cs (Suc n) es new
              (fst (reclaimLoop sp root cs (Suc n) es ?w2), fst (snd (reclaimLoop sp root cs (Suc n) es ?w2)))"
        by (elim exE conjE)
      have u: "reclaimLoop sp root (c # cs) n es w = reclaimLoop sp root cs (Suc n) es ?w2"
        using z hb by (simp add: reclaimLoop_Cons Let_def del: reclaimLoop.simps)
      have v: "reclaimLoop (traced sp) root (c # cs) n es (w, log) =
                 reclaimLoop (traced sp) root cs (Suc n) es (?w2, log @ [?e, ?e2])"
        using z hb by (simp add: reclaimLoop_Cons traced_apply Let_def del: reclaimLoop.simps)
      have b': "batch_ok (c # cs) n es (?e # ?e2 # new)
              (fst (reclaimLoop sp root cs (Suc n) es ?w2), fst (snd (reclaimLoop sp root cs (Suc n) es ?w2)))"
        using b rem z not_removal_delete by (intro batch_ok_removed_deleted) simp_all
      show ?thesis
        unfolding u v
        by (rule exI[of _ "?e # ?e2 # new"]) (simp add: t b' del: reclaimLoop.simps)
    qed
  qed
qed

text \<open>
  Claim C2. Run with a command runner that records its calls, the reclaimer returns
  what it returns without the record, and the record shows: the removal of every
  candidate of the batch was attempted, in order, whatever failed before; the success
  count is the number of removals that exited with zero (the result of a branch
  deletion does not enter it); the error list holds, in order, one line for each
  candidate whose removal failed, made of its branch name (its path when it has no
  branch) and the message of the failure; and every candidate is either counted or
  reported.
\<close>

theorem reclaim_batch:
  "reclaim (traced sp) root toRemove (w, []) = (removed, errors, (w', log)) \<longrightarrow>
     reclaim sp root toRemove w = (removed, errors, w')
     \<and> map fst (filter is_removal log) = map (\<lambda>c. removal_cmd (path (entry c))) toRemove
     \<and> removed = length (filter removal_succeeded log)
     \<and> errors = map failure_line (filter removal_failed (zip toRemove (filter is_removal log)))
     \<and> removed + length errors = length toRemove"
proof
  assume h: "reclaim (traced sp) root toRemove (w, []) = (removed, errors, (w', log))"
  let ?p = "reclaimLoop sp root toRemove 0 [] w"
  from reclaimLoop_traced[of sp root toRemove 0 "[]" w "[]"]
  obtain new where
    t: "reclaimLoop (traced sp) root toRemove 0 [] (w, []) =
          (fst ?p, fst (snd ?p), (snd (snd ?p), [] @ new))"
    and b: "batch_ok toRemove 0 [] new (fst ?p, fst (snd ?p))"
    by (elim exE conjE)
  have eqs: "removed = fst ?p" "errors = fst (snd ?p)" "w' = snd (snd ?p)" "log = new"
    using h t by (simp_all add: reclaim_def)
  have plain: "reclaim sp root toRemove w = (removed, errors, w')"
    by (simp add: reclaim_def eqs)
  have b': "batch_ok toRemove 0 [] log (removed, errors)"
    using b by (simp add: eqs)
  show "reclaim sp root toRemove w = (removed, errors, w')
     \<and> map fst (filter is_removal log) = map (\<lambda>c. removal_cmd (path (entry c))) toRemove
     \<and> removed = length (filter removal_succeeded log)
     \<and> errors = map failure_line (filter removal_failed (zip toRemove (filter is_removal log)))
     \<and> removed + length errors = length toRemove"
    using plain b' by (auto simp: batch_ok_def)
qed

lemma batch_run:
  "fst (reclaim (traced (canned batch_world)) ''/work/app'' batch ((), [])) = 2"
  "fst (snd (reclaim (traced (canned batch_world)) ''/work/app'' batch ((), []))) =
     [''feat/b: fatal: cannot remove a locked working tree'']"
  by code_simp+

theorem reclaim_batch_witness:
  "fst (reclaim (traced (canned batch_world)) ''/work/app'' batch ((), [])) = 2
   \<and> fst (snd (reclaim (traced (canned batch_world)) ''/work/app'' batch ((), []))) =
       [''feat/b: fatal: cannot remove a locked working tree'']
   \<and> fst (reclaim (canned batch_world) ''/work/app'' batch ()) = 2
   \<and> fst (snd (reclaim (canned batch_world) ''/work/app'' batch ())) =
       [''feat/b: fatal: cannot remove a locked working tree'']
   \<and> map fst (filter is_removal
         (snd (snd (snd (reclaim (traced (canned batch_world)) ''/work/app'' batch ((), [])))))) =
       map (\<lambda>c. removal_cmd (path (entry c))) batch"
proof -
  let ?x = "reclaim (traced (canned batch_world)) ''/work/app'' batch ((), [])"
  have h: "?x = (fst ?x, fst (snd ?x), (fst (snd (snd ?x)), snd (snd (snd ?x))))"
    by (simp only: prod.collapse)
  note t = reclaim_batch [of "canned batch_world" "''/work/app''" batch "()" "fst ?x" "fst (snd ?x)"
      "fst (snd (snd ?x))" "snd (snd (snd ?x))", THEN mp, OF h]
  have p: "reclaim (canned batch_world) ''/work/app'' batch () = (fst ?x, fst (snd ?x), fst (snd (snd ?x)))"
    using t by (rule conjunct1)
  have l: "map fst (filter is_removal (snd (snd (snd ?x)))) = map (\<lambda>c. removal_cmd (path (entry c))) batch"
    using t by (rule conjunct2[THEN conjunct1])
  have p1: "fst (reclaim (canned batch_world) ''/work/app'' batch ()) = 2"
    using p batch_run(1) by simp
  have p2: "fst (snd (reclaim (canned batch_world) ''/work/app'' batch ())) =
       [''feat/b: fatal: cannot remove a locked working tree'']"
    using p batch_run(2) by simp
  show ?thesis
    by (intro conjI batch_run p1 p2 l)
qed

end
